theory Spec2Isabelle
  imports Complex_Main "HOL-Library.Product_Lexorder"
begin

section \<open>Python values\<close>

text \<open>
  The program is \<^verbatim>\<open>video_compiler.py\<close>. Its functions are embedded one by one, under
  their own names. An exception of the source is the \<open>Inl\<close> branch of a sum type.
  \<open>JSONDecodeError\<close> is a subclass of \<open>ValueError\<close> in Python; the two are kept apart
  here and every handler of the source that names \<open>ValueError\<close> catches both.
\<close>

datatype py_error =
    ValueError | JSONDecodeError | KeyError | TypeError | AttributeError
  | UnboundLocalError | CalledProcessError | FileNotFoundError | OSError

text \<open>
  A Python float: the finite ones by their value, the infinities and NaN. The program
  only compares floats (\<open><\<close>, \<open>min\<close>), which is exact, so no rounding enters.
\<close>

datatype pyfloat = Fin real | PInf | NInf | NaN

fun flt_lt :: "pyfloat \<Rightarrow> pyfloat \<Rightarrow> bool" where
  "flt_lt NaN _ = False"
| "flt_lt _ NaN = False"
| "flt_lt (Fin a) (Fin b) = (a < b)"
| "flt_lt (Fin a) PInf = True"
| "flt_lt (Fin a) NInf = False"
| "flt_lt PInf _ = False"
| "flt_lt NInf NInf = False"
| "flt_lt NInf _ = True"

text \<open>Python's \<^verbatim>\<open>min(a, b)\<close>: the second argument wins only when it is smaller.\<close>

definition py_min :: "pyfloat \<Rightarrow> pyfloat \<Rightarrow> pyfloat" where
  "py_min a b = (if flt_lt b a then b else a)"

section \<open>Filename Date Parser\<close>

text \<open>
  A name is a list of characters; the model covers ASCII names, where \<^verbatim>\<open>\d\<close> is one
  of \<open>0..9\<close>. A date is the triple (year, month, day) of the \<^verbatim>\<open>datetime\<close> the
  source builds (its time of day is always midnight); triples are ordered
  lexicographically, as \<^verbatim>\<open>datetime\<close> values are.
\<close>

type_synonym date = "nat \<times> nat \<times> nat"

definition newline :: char where
  "newline = CHR 0x0A"

definition is_digit :: "char \<Rightarrow> bool" where
  "is_digit c = (c \<in> set ''0123456789'')"

definition digit_val :: "char \<Rightarrow> nat" where
  "digit_val c = of_char c - 48"

definition num_of :: "string \<Rightarrow> nat" where
  "num_of ds = foldl (\<lambda>acc c. 10 * acc + digit_val c) 0 ds"

text \<open>
  The tail \<^verbatim>\<open>.*\.mp4$\<close> of the pattern, on the text after the underscore: \<^verbatim>\<open>.\<close>
  matches no newline, and \<^verbatim>\<open>$\<close> matches at the end of the name or before one final
  newline.
\<close>

definition dot_star_mp4_eol :: "string \<Rightarrow> bool" where
  "dot_star_mp4_eol r =
     (let n = length r in
        (4 \<le> n \<and> drop (n - 4) r = ''.mp4'' \<and> newline \<notin> set (take (n - 4) r)) \<or>
        (5 \<le> n \<and> drop (n - 5) r = ''.mp4'' @ [newline] \<and> newline \<notin> set (take (n - 5) r)))"

text \<open>
  \<^verbatim>\<open>re.match(r'(\d{4}-\d{2}-\d{2})_.*\.mp4$', filename)\<close>: \<open>None\<close> when the name does
  not match, else group 1, the first ten characters.
\<close>

definition re_match :: "string \<Rightarrow> string option" where
  "re_match s =
     (if 11 \<le> length s
         \<and> list_all is_digit (take 4 s) \<and> s ! 4 = CHR ''-''
         \<and> list_all is_digit (take 2 (drop 5 s)) \<and> s ! 7 = CHR ''-''
         \<and> list_all is_digit (take 2 (drop 8 s)) \<and> s ! 10 = CHR ''_''
         \<and> dot_star_mp4_eol (drop 11 s)
      then Some (take 10 s) else None)"

definition is_leap :: "nat \<Rightarrow> bool" where
  "is_leap y = (y mod 4 = 0 \<and> (y mod 100 \<noteq> 0 \<or> y mod 400 = 0))"

definition days_in_month :: "nat \<Rightarrow> nat \<Rightarrow> nat" where
  "days_in_month y m =
     (if m = 2 then (if is_leap y then 29 else 28)
      else if m = 4 \<or> m = 6 \<or> m = 9 \<or> m = 11 then 30 else 31)"

text \<open>
  \<^verbatim>\<open>datetime.strptime(g, '%Y-%m-%d')\<close> on a group \<open>g\<close> of the shape
  \<open>dddd-dd-dd\<close>, the only shape \<open>re_match\<close> returns: a \<open>ValueError\<close> when the month is
  not 1..12, the day is not in the month, or the year is 0.
\<close>

definition strptime_ymd :: "string \<Rightarrow> py_error + date" where
  "strptime_ymd g =
     (let y = num_of (take 4 g); m = num_of (take 2 (drop 5 g)); d = num_of (take 2 (drop 8 g))
      in if 1 \<le> y \<and> 1 \<le> m \<and> m \<le> 12 \<and> 1 \<le> d \<and> d \<le> days_in_month y m
         then Inr (y, m, d) else Inl ValueError)"

definition parse_date_from_filename :: "string \<Rightarrow> py_error + date option" where
  "parse_date_from_filename filename =
     (case re_match filename of
        None \<Rightarrow> Inr None
      | Some g \<Rightarrow> (case strptime_ymd g of Inl e \<Rightarrow> Inl e | Inr d \<Rightarrow> Inr (Some d)))"

section \<open>Corpus Scanner\<close>

text \<open>
  A video file is modelled by its name inside \<^verbatim>\<open>videos\<close>. \<^verbatim>\<open>Path.suffix\<close> is the
  name from its last dot on, unless that dot is the first or the last character.
\<close>

fun rfind :: "char \<Rightarrow> string \<Rightarrow> nat option" where
  "rfind c [] = None"
| "rfind c (x # xs) =
     (case rfind c xs of Some i \<Rightarrow> Some (Suc i) | None \<Rightarrow> if x = c then Some 0 else None)"

definition suffix_of :: "string \<Rightarrow> string" where
  "suffix_of name =
     (case rfind (CHR ''.'') name of
        None \<Rightarrow> []
      | Some i \<Rightarrow> if 0 < i \<and> i < length name - 1 then drop i name else [])"

definition lower_char :: "char \<Rightarrow> char" where
  "lower_char c =
     (case map_of (zip ''ABCDEFGHIJKLMNOPQRSTUVWXYZ'' ''abcdefghijklmnopqrstuvwxyz'') c of
        Some l \<Rightarrow> l | None \<Rightarrow> c)"

definition py_lower :: "string \<Rightarrow> string" where
  "py_lower s = map lower_char s"

definition get_video_files :: "string list \<Rightarrow> string list" where
  "get_video_files entries = filter (\<lambda>f. py_lower (suffix_of f) = ''.mp4'') entries"

section \<open>Day Grouper and Daily Selector\<close>

text \<open>
  A dictionary is an association list in insertion order with distinct keys, the order
  in which Python iterates it. \<open>dd_append\<close> is \<^verbatim>\<open>grouped[date].append(video_file)\<close> on
  a \<^verbatim>\<open>defaultdict(list)\<close>.
\<close>

fun dd_append :: "('k \<times> 'v list) list \<Rightarrow> 'k \<Rightarrow> 'v \<Rightarrow> ('k \<times> 'v list) list" where
  "dd_append [] k v = [(k, [v])]"
| "dd_append ((k', vs) # rest) k v =
     (if k' = k then (k', vs @ [v]) # rest else (k', vs) # dd_append rest k v)"

fun group_loop ::
  "string list \<Rightarrow> (date \<times> string list) list \<Rightarrow> py_error + (date \<times> string list) list" where
  "group_loop [] grouped = Inr grouped"
| "group_loop (video_file # rest) grouped =
     (case parse_date_from_filename video_file of
        Inl e \<Rightarrow> Inl e
      | Inr None \<Rightarrow> group_loop rest grouped
      | Inr (Some d) \<Rightarrow> group_loop rest (dd_append grouped d video_file))"

definition group_by_date :: "string list \<Rightarrow> py_error + (date \<times> string list) list" where
  "group_by_date video_files = group_loop video_files []"

text \<open>
  \<^verbatim>\<open>random.choice(videos)\<close> returns some element of a non-empty list; the random source
  is a function from the number of the call to a natural number.
\<close>

definition random_choice :: "nat \<Rightarrow> 'a list \<Rightarrow> 'a" where
  "random_choice r xs = xs ! (r mod length xs)"

fun select_loop :: "(nat \<Rightarrow> nat) \<Rightarrow> nat \<Rightarrow> (date \<times> string list) list \<Rightarrow> (date \<times> string) list" where
  "select_loop rnd n [] = []"
| "select_loop rnd n ((d, videos) # rest) =
     (if videos \<noteq> [] then (d, random_choice (rnd n) videos) # select_loop rnd (Suc n) rest
      else select_loop rnd n rest)"

definition select_one_per_day :: "(nat \<Rightarrow> nat) \<Rightarrow> (date \<times> string list) list \<Rightarrow> (date \<times> string) list" where
  "select_one_per_day rnd grouped_videos = select_loop rnd 0 grouped_videos"

section \<open>Probe output as Python sees it\<close>

text \<open>
  What \<^verbatim>\<open>json.loads\<close> returns. A dictionary is an association list read with
  \<open>map_of\<close>. Numbers are taken at their float value (an integer literal too large for a
  float is outside the model).
\<close>

datatype json =
    JNull | JBool bool | JNum pyfloat | JStr string
  | JArr "json list" | JObj "(string \<times> json) list"

text \<open>
  \<^verbatim>\<open>subprocess.run(cmd, capture_output=True, text=True, check=True)\<close> returns the
  standard output of a run that exits with 0, raises \<open>CalledProcessError\<close> on any other
  exit status, and raises something else when the tool cannot be started.
\<close>

datatype proc = Completed string | Raised py_error

text \<open>\<^verbatim>\<open>d.get(k, dflt)\<close>: only a dictionary has the method.\<close>

definition py_get :: "json \<Rightarrow> string \<Rightarrow> json \<Rightarrow> py_error + json" where
  "py_get v k dflt =
     (case v of
        JObj kvs \<Rightarrow> Inr (case map_of kvs k of Some x \<Rightarrow> x | None \<Rightarrow> dflt)
      | _ \<Rightarrow> Inl AttributeError)"

text \<open>\<^verbatim>\<open>for x in v\<close>: the elements of a list, the keys of a dictionary, the characters of a string.\<close>

definition py_iter :: "json \<Rightarrow> py_error + json list" where
  "py_iter v =
     (case v of
        JArr xs \<Rightarrow> Inr xs
      | JObj kvs \<Rightarrow> Inr (map JStr (remdups (map fst kvs)))
      | JStr s \<Rightarrow> Inr (map (\<lambda>c. JStr [c]) s)
      | _ \<Rightarrow> Inl TypeError)"

definition is_substring :: "string \<Rightarrow> string \<Rightarrow> bool" where
  "is_substring k s = list_ex (\<lambda>i. take (length k) (drop i s) = k) [0..<Suc (length s)]"

text \<open>\<^verbatim>\<open>k in v\<close> for a string \<open>k\<close>: a key, an element or a substring.\<close>

definition py_contains :: "string \<Rightarrow> json \<Rightarrow> py_error + bool" where
  "py_contains k v =
     (case v of
        JObj kvs \<Rightarrow> Inr (map_of kvs k \<noteq> None)
      | JArr xs \<Rightarrow> Inr (JStr k \<in> set xs)
      | JStr s \<Rightarrow> Inr (is_substring k s)
      | _ \<Rightarrow> Inl TypeError)"

text \<open>\<^verbatim>\<open>v[k]\<close> for a string \<open>k\<close>.\<close>

definition py_getitem :: "json \<Rightarrow> string \<Rightarrow> py_error + json" where
  "py_getitem v k =
     (case v of
        JObj kvs \<Rightarrow> (case map_of kvs k of Some x \<Rightarrow> Inr x | None \<Rightarrow> Inl KeyError)
      | _ \<Rightarrow> Inl TypeError)"

text \<open>
  \<^verbatim>\<open>float(v)\<close>; how Python reads a string as a float is the parameter \<open>s2f\<close>
  (\<open>None\<close> when it raises \<open>ValueError\<close>).
\<close>

definition py_float :: "(string \<Rightarrow> pyfloat option) \<Rightarrow> json \<Rightarrow> py_error + pyfloat" where
  "py_float s2f v =
     (case v of
        JStr s \<Rightarrow> (case s2f s of Some f \<Rightarrow> Inr f | None \<Rightarrow> Inl ValueError)
      | JNum f \<Rightarrow> Inr f
      | JBool b \<Rightarrow> Inr (Fin (if b then 1 else 0))
      | _ \<Rightarrow> Inl TypeError)"

section \<open>The collaborators\<close>

text \<open>
  Everything the program gets from outside: the two tools, the directory listing, the
  random source, the temporary names, and the two library conversions.
\<close>

record extract_request =
  src :: string
  dst :: string
  t_duration :: pyfloat
  ss_start :: int

record env =
  tools_found :: bool
  iterdir :: "py_error + string list"
  rnd :: "nat \<Rightarrow> nat"
  ffprobe_format :: "string \<Rightarrow> proc"
  ffprobe_streams :: "string \<Rightarrow> proc"
  json_loads :: "string \<Rightarrow> json option"
  str_to_float :: "string \<Rightarrow> pyfloat option"
  ffmpeg_extract :: "extract_request \<Rightarrow> proc"
  ffmpeg_concat :: "string list \<Rightarrow> string \<Rightarrow> proc"
  temp_dir :: string
  manifest_name :: string
  manifest_write :: "string \<Rightarrow> py_error option"

datatype event =
    ProbeFormat string
  | ProbeStreams string
  | Extract extract_request
  | WriteManifest string string
  | Concat string string

text \<open>
  The world the program acts on: the paths that exist and the tool invocations made so
  far. A tool is taken to leave its output file behind exactly when it exits with 0.
\<close>

record world =
  files :: "string set"
  log :: "event list"

definition emit :: "event \<Rightarrow> world \<Rightarrow> world" where
  "emit ev w = w\<lparr>log := log w @ [ev]\<rparr>"

section \<open>Duration probe and Clip Validator\<close>

definition duration_body :: "(string \<Rightarrow> pyfloat option) \<Rightarrow> json \<Rightarrow> py_error + pyfloat" where
  "duration_body s2f data =
     (case py_getitem data ''format'' of
        Inl e \<Rightarrow> Inl e
      | Inr fmt \<Rightarrow>
          (case py_getitem fmt ''duration'' of
             Inl e \<Rightarrow> Inl e
           | Inr v \<Rightarrow> py_float s2f v))"

text \<open>The handler \<^verbatim>\<open>except (subprocess.CalledProcessError, KeyError, ValueError)\<close>.\<close>

definition duration_caught :: "py_error \<Rightarrow> bool" where
  "duration_caught e = (e = CalledProcessError \<or> e = KeyError \<or> e = ValueError \<or> e = JSONDecodeError)"

text \<open>
  What \<^verbatim>\<open>get_video_duration\<close> returns or raises; the function itself adds the
  invocation of the probe to the log.
\<close>

definition get_video_duration_result :: "env \<Rightarrow> string \<Rightarrow> py_error + pyfloat" where
  "get_video_duration_result E video_path =
     (let tried =
            (case ffprobe_format E video_path of
               Raised e \<Rightarrow> Inl e
             | Completed out \<Rightarrow>
                 (case json_loads E out of
                    None \<Rightarrow> Inl JSONDecodeError
                  | Some data \<Rightarrow> duration_body (str_to_float E) data))
      in (case tried of
            Inl e \<Rightarrow> if duration_caught e then Inr (Fin 10) else Inl e
          | Inr duration \<Rightarrow> Inr duration))"

definition get_video_duration :: "env \<Rightarrow> string \<Rightarrow> world \<Rightarrow> (py_error + pyfloat) \<times> world" where
  "get_video_duration E video_path w =
     (get_video_duration_result E video_path, emit (ProbeFormat video_path) w)"

text \<open>The loop over the streams, with its two flags.\<close>

fun scan_streams :: "json list \<Rightarrow> bool \<Rightarrow> bool \<Rightarrow> py_error + bool \<times> bool" where
  "scan_streams [] has_video has_audio = Inr (has_video, has_audio)"
| "scan_streams (stream # rest) has_video has_audio =
     (case py_get stream ''codec_type'' JNull of
        Inl e \<Rightarrow> Inl e
      | Inr t \<Rightarrow>
          if t = JStr ''video'' then scan_streams rest True has_audio
          else if t = JStr ''audio'' then scan_streams rest has_video True
          else scan_streams rest has_video has_audio)"

definition read_duration :: "(string \<Rightarrow> pyfloat option) \<Rightarrow> json \<Rightarrow> py_error + pyfloat option" where
  "read_duration s2f data =
     (case py_contains ''format'' data of
        Inl e \<Rightarrow> Inl e
      | Inr False \<Rightarrow> Inr None
      | Inr True \<Rightarrow>
          (case py_getitem data ''format'' of
             Inl e \<Rightarrow> Inl e
           | Inr fmt \<Rightarrow>
               (case py_contains ''duration'' fmt of
                  Inl e \<Rightarrow> Inl e
                | Inr False \<Rightarrow> Inr None
                | Inr True \<Rightarrow>
                    (case py_getitem fmt ''duration'' of
                       Inl e \<Rightarrow> Inl e
                     | Inr v \<Rightarrow>
                         (case py_float s2f v of Inl e \<Rightarrow> Inl e | Inr f \<Rightarrow> Inr (Some f))))))"

definition validate_checks :: "bool \<Rightarrow> bool \<Rightarrow> pyfloat option \<Rightarrow> bool" where
  "validate_checks has_video has_audio duration =
     (if \<not> has_video then False
      else if \<not> has_audio then False
      else (case duration of None \<Rightarrow> False | Some d \<Rightarrow> if flt_lt d (Fin (1 / 2)) then False else True))"

definition validate_body :: "(string \<Rightarrow> pyfloat option) \<Rightarrow> json \<Rightarrow> py_error + bool" where
  "validate_body s2f data =
     (case py_get data ''streams'' (JArr []) of
        Inl e \<Rightarrow> Inl e
      | Inr streams \<Rightarrow>
          (case py_iter streams of
             Inl e \<Rightarrow> Inl e
           | Inr ss \<Rightarrow>
               (case scan_streams ss False False of
                  Inl e \<Rightarrow> Inl e
                | Inr (has_video, has_audio) \<Rightarrow>
                    (case read_duration s2f data of
                       Inl e \<Rightarrow> Inl e
                     | Inr duration \<Rightarrow> Inr (validate_checks has_video has_audio duration)))))"

text \<open>
  The handler \<^verbatim>\<open>except (subprocess.CalledProcessError, KeyError, ValueError,
  json.JSONDecodeError)\<close>, once \<^verbatim>\<open>json\<close> is bound.
\<close>

definition validate_caught :: "py_error \<Rightarrow> bool" where
  "validate_caught e = (e = CalledProcessError \<or> e = KeyError \<or> e = ValueError \<or> e = JSONDecodeError)"

text \<open>
  \<^verbatim>\<open>import json\<close> stands inside the \<^verbatim>\<open>try\<close>, after \<^verbatim>\<open>subprocess.run\<close>, which
  makes \<^verbatim>\<open>json\<close> a local name of \<^verbatim>\<open>validate_clip\<close>. When \<^verbatim>\<open>subprocess.run\<close>
  raises, Python evaluates the tuple of the \<^verbatim>\<open>except\<close> clause to match the exception,
  reads the unbound local \<^verbatim>\<open>json\<close> there, and raises \<open>UnboundLocalError\<close> instead.
\<close>

definition validate_clip_result :: "env \<Rightarrow> string \<Rightarrow> py_error + bool" where
  "validate_clip_result E clip_path =
     (case ffprobe_streams E clip_path of
        Raised e \<Rightarrow> Inl UnboundLocalError
      | Completed out \<Rightarrow>
          (case (case json_loads E out of
                   None \<Rightarrow> Inl JSONDecodeError
                 | Some data \<Rightarrow> validate_body (str_to_float E) data) of
             Inl e \<Rightarrow> if validate_caught e then Inr False else Inl e
           | Inr ok \<Rightarrow> Inr ok))"

definition validate_clip :: "env \<Rightarrow> string \<Rightarrow> world \<Rightarrow> (py_error + bool) \<times> world" where
  "validate_clip E clip_path w =
     (validate_clip_result E clip_path, emit (ProbeStreams clip_path) w)"

section \<open>Clip Extractor\<close>

text \<open>
  The parameters \<^verbatim>\<open>duration=1.6\<close> and \<^verbatim>\<open>start_time=0\<close> have defaults: an argument
  the caller leaves out is \<open>None\<close>. Of the command only the four varying arguments are
  kept.
\<close>

definition extract_cmd :: "string \<Rightarrow> string \<Rightarrow> pyfloat option \<Rightarrow> int option \<Rightarrow> extract_request" where
  "extract_cmd input_path output_path duration start_time =
     \<lparr>src = input_path, dst = output_path,
      t_duration = (case duration of None \<Rightarrow> Fin (16 / 10) | Some d \<Rightarrow> d),
      ss_start = (case start_time of None \<Rightarrow> 0 | Some s \<Rightarrow> s)\<rparr>"

definition extract_clip ::
  "env \<Rightarrow> string \<Rightarrow> string \<Rightarrow> pyfloat option \<Rightarrow> int option \<Rightarrow> world \<Rightarrow> (py_error + bool) \<times> world" where
  "extract_clip E input_path output_path duration start_time w =
     (let cmd = extract_cmd input_path output_path duration start_time;
          w1 = emit (Extract cmd) w
      in (case ffmpeg_extract E cmd of
            Completed out \<Rightarrow> (Inr True, w1\<lparr>files := insert output_path (files w1)\<rparr>)
          | Raised e \<Rightarrow> (if e = CalledProcessError then Inr False else Inl e, w1)))"

section \<open>Concatenator\<close>

definition quote :: char where
  "quote = CHR 0x27"

definition create_concat_file :: "string list \<Rightarrow> string" where
  "create_concat_file clip_paths =
     concat (map (\<lambda>clip_path. ''file '' @ [quote] @ clip_path @ [quote, newline]) clip_paths)"

definition os_unlink :: "string \<Rightarrow> world \<Rightarrow> py_error option \<times> world" where
  "os_unlink p w =
     (if p \<in> files w then (None, w\<lparr>files := files w - {p}\<rparr>) else (Some FileNotFoundError, w))"

text \<open>
  The \<^verbatim>\<open>with\<close> block creates the manifest (\<^verbatim>\<open>delete=False\<close>) and writes it; the
  \<^verbatim>\<open>try\<close> starts after it. The \<^verbatim>\<open>finally\<close> clause runs on each of the three ways
  out of the \<^verbatim>\<open>try\<close>; an exception of \<^verbatim>\<open>os.unlink\<close> itself replaces the result.
\<close>

definition concatenate_videos ::
  "env \<Rightarrow> string list \<Rightarrow> string \<Rightarrow> world \<Rightarrow> (py_error + bool) \<times> world" where
  "concatenate_videos E clip_paths output_path w =
     (let concat_file_path = manifest_name E;
          w1 = w\<lparr>files := insert concat_file_path (files w)\<rparr>
      in (case manifest_write E (create_concat_file clip_paths) of
            Some e \<Rightarrow> (Inl e, w1)
          | None \<Rightarrow>
              (let w2 = emit (Concat concat_file_path output_path)
                         (emit (WriteManifest concat_file_path (create_concat_file clip_paths)) w1);
                   (r, w3) =
                     (case ffmpeg_concat E clip_paths output_path of
                        Completed out \<Rightarrow> (Inr True, w2\<lparr>files := insert output_path (files w2)\<rparr>)
                      | Raised e \<Rightarrow> (if e = CalledProcessError then Inr False else Inl e, w2))
               in (case os_unlink concat_file_path w3 of
                     (Some e, w4) \<Rightarrow> (Inl e, w4)
                   | (None, w4) \<Rightarrow> (r, w4)))))"

section \<open>Pipeline Driver\<close>

definition video_dir :: string where
  "video_dir = ''videos''"

definition output_file :: string where
  "output_file = ''snap-one-second-videos.mp4''"

definition clip_duration :: pyfloat where
  "clip_duration = Fin (14 / 10)"

definition path_str :: "string \<Rightarrow> string" where
  "path_str name = video_dir @ ''/'' @ name"

fun digits_of :: "nat \<Rightarrow> string" where
  "digits_of n =
     (if n < 10 then [char_of (48 + n)] else digits_of (n div 10) @ [char_of (48 + n mod 10)])"

definition zero_pad :: "nat \<Rightarrow> nat \<Rightarrow> string" where
  "zero_pad width n = replicate (width - length (digits_of n)) (CHR ''0'') @ digits_of n"

text \<open>
  \<^verbatim>\<open>f"clip_{i:04d}_{date.strftime('%Y%m%d')}.mp4"\<close>; \<^verbatim>\<open>%Y\<close> prints the year
  without padding, as the C library does.
\<close>

definition clip_filename :: "nat \<Rightarrow> date \<Rightarrow> string" where
  "clip_filename i d =
     (case d of (y, m, dd) \<Rightarrow>
        ''clip_'' @ zero_pad 4 i @ ''_'' @ digits_of y @ zero_pad 2 m @ zero_pad 2 dd @ ''.mp4'')"

definition clip_path_of :: "env \<Rightarrow> nat \<Rightarrow> date \<Rightarrow> string" where
  "clip_path_of E i d = temp_dir E @ ''/'' @ clip_filename i d"

text \<open>
  The loop of \<^verbatim>\<open>main\<close> over \<^verbatim>\<open>enumerate(sorted_dates)\<close>. \<open>clips\<close> is
  \<^verbatim>\<open>clip_paths\<close>, each path kept together with the date it was cut for.
\<close>

fun extract_loop ::
  "env \<Rightarrow> (date \<times> string) list \<Rightarrow> (nat \<times> date) list \<Rightarrow> (date \<times> string) list \<Rightarrow> world
     \<Rightarrow> (py_error + (date \<times> string) list) \<times> world" where
  "extract_loop E selected [] clips w = (Inr clips, w)"
| "extract_loop E selected ((i, d) # rest) clips w =
     (case map_of selected d of
        None \<Rightarrow> (Inl KeyError, w)
      | Some video \<Rightarrow>
          (let clip_path = clip_path_of E i d in
           case get_video_duration E (path_str video) w of
             (Inl e, w1) \<Rightarrow> (Inl e, w1)
           | (Inr duration, w1) \<Rightarrow>
               (let actual_clip_duration = py_min clip_duration duration in
                case extract_clip E (path_str video) clip_path (Some actual_clip_duration) (Some 0) w1 of
                  (Inl e, w2) \<Rightarrow> (Inl e, w2)
                | (Inr False, w2) \<Rightarrow> extract_loop E selected rest clips w2
                | (Inr True, w2) \<Rightarrow>
                    (case validate_clip E clip_path w2 of
                       (Inl e, w3) \<Rightarrow> (Inl e, w3)
                     | (Inr False, w3) \<Rightarrow> extract_loop E selected rest clips w3
                     | (Inr True, w3) \<Rightarrow> extract_loop E selected rest (clips @ [(d, clip_path)]) w3))))"

text \<open>Leaving \<^verbatim>\<open>with tempfile.TemporaryDirectory()\<close> removes the directory and all in it.\<close>

definition under_dir :: "string \<Rightarrow> string \<Rightarrow> bool" where
  "under_dir d p = (take (Suc (length d)) p = d @ ''/'')"

definition cleanup :: "env \<Rightarrow> world \<Rightarrow> world" where
  "cleanup E w = w\<lparr>files := Set.filter (\<lambda>p. \<not> under_dir (temp_dir E) p) (files w)\<rparr>"

text \<open>
  The middle of \<^verbatim>\<open>main\<close>: one video per day, the dates sorted, the loop run from
  an empty \<^verbatim>\<open>clip_paths\<close>.
\<close>

definition select_sort_extract ::
  "env \<Rightarrow> (date \<times> string list) list \<Rightarrow> world \<Rightarrow> (py_error + (date \<times> string) list) \<times> world" where
  "select_sort_extract E grouped_videos w =
     (let selected_videos = select_one_per_day (rnd E) grouped_videos;
          sorted_dates = sort (map fst selected_videos)
      in extract_loop E selected_videos (enumerate 0 sorted_dates) [] w)"

text \<open>The ways \<^verbatim>\<open>main\<close> returns, named after the message it prints before.\<close>

datatype outcome = MissingTools | NoVideoFiles | NoClips | Compiled nat | ConcatFailed

definition main :: "env \<Rightarrow> world \<Rightarrow> (py_error + outcome) \<times> world" where
  "main E w =
     (if \<not> tools_found E then (Inr MissingTools, w)
      else
        (case iterdir E of
           Inl e \<Rightarrow> (Inl e, w)
         | Inr entries \<Rightarrow>
             (let video_files = get_video_files entries in
              if video_files = [] then (Inr NoVideoFiles, w)
              else
                (case group_by_date video_files of
                   Inl e \<Rightarrow> (Inl e, w)
                 | Inr grouped_videos \<Rightarrow>
                     (case select_sort_extract E grouped_videos w of
                            (Inl e, w1) \<Rightarrow> (Inl e, cleanup E w1)
                          | (Inr clips, w1) \<Rightarrow>
                              if clips = [] then (Inr NoClips, cleanup E w1)
                              else
                                (case concatenate_videos E (map snd clips) output_file w1 of
                                   (Inl e, w2) \<Rightarrow> (Inl e, cleanup E w2)
                                 | (Inr True, w2) \<Rightarrow> (Inr (Compiled (length clips)), cleanup E w2)
                                 | (Inr False, w2) \<Rightarrow> (Inr ConcatFailed, cleanup E w2)))))))"

section \<open>Notions used to state the properties\<close>

text \<open>
  The events one round of the loop of \<^verbatim>\<open>main\<close> may add to the log, for the video
  chosen for date \<open>d\<close> at position \<open>i\<close>: the duration probe, the extraction with the
  clamped duration, the validation probe.
\<close>

definition round_events :: "env \<Rightarrow> string \<Rightarrow> nat \<Rightarrow> date \<Rightarrow> event list \<Rightarrow> bool" where
  "round_events E video i d evs \<longleftrightarrow>
     (\<forall>ev\<in>set evs.
        ev = ProbeFormat (path_str video) \<or> ev = ProbeStreams (clip_path_of E i d) \<or>
        (\<exists>dur. get_video_duration_result E (path_str video) = Inr dur \<and>
               ev = Extract (extract_cmd (path_str video) (clip_path_of E i d)
                               (Some (py_min clip_duration dur)) (Some 0))))"

definition loop_event :: "env \<Rightarrow> (date \<times> string) list \<Rightarrow> (nat \<times> date) list \<Rightarrow> event \<Rightarrow> bool" where
  "loop_event E sel xs ev \<longleftrightarrow>
     (\<exists>i d video. (i, d) \<in> set xs \<and> map_of sel d = Some video \<and> round_events E video i d [ev])"

text \<open>
  What a probe document shows, in the words of the specification: a stream of a given
  kind, and a duration. A duration that is missing or cannot be read as a number is
  absent.
\<close>

definition streams_of :: "json \<Rightarrow> json list" where
  "streams_of data =
     (case data of
        JObj kvs \<Rightarrow> (case map_of kvs ''streams'' of Some (JArr ss) \<Rightarrow> ss | _ \<Rightarrow> [])
      | _ \<Rightarrow> [])"

definition codec_type_of :: "json \<Rightarrow> json option" where
  "codec_type_of s = (case s of JObj kvs \<Rightarrow> map_of kvs ''codec_type'' | _ \<Rightarrow> None)"

definition shows_stream :: "string \<Rightarrow> json \<Rightarrow> bool" where
  "shows_stream kind data = list_ex (\<lambda>s. codec_type_of s = Some (JStr kind)) (streams_of data)"

definition shown_duration :: "(string \<Rightarrow> pyfloat option) \<Rightarrow> json \<Rightarrow> pyfloat option" where
  "shown_duration s2f data =
     (case data of
        JObj kvs \<Rightarrow>
          (case map_of kvs ''format'' of
             Some (JObj fkvs) \<Rightarrow>
               (case map_of fkvs ''duration'' of
                  Some (JStr s) \<Rightarrow> s2f s
                | Some (JNum f) \<Rightarrow> Some f
                | _ \<Rightarrow> None)
           | _ \<Rightarrow> None)
      | _ \<Rightarrow> None)"

definition invalid_by_probe :: "(string \<Rightarrow> pyfloat option) \<Rightarrow> json \<Rightarrow> bool" where
  "invalid_by_probe s2f data \<longleftrightarrow>
     \<not> shows_stream ''video'' data \<or> \<not> shows_stream ''audio'' data \<or>
     (case shown_duration s2f data of None \<Rightarrow> True | Some d \<Rightarrow> flt_lt d (Fin (1 / 2)))"

text \<open>
  What the duration probe obtains for a source, in the words of the specification: the
  duration its document shows under \<^verbatim>\<open>format\<close>, read as a number. Nothing is
  obtained when the probe does not exit with 0, when its output is not JSON, or when the
  document shows no duration that reads as a number.
\<close>

definition number_shown :: "(string \<Rightarrow> pyfloat option) \<Rightarrow> json \<Rightarrow> pyfloat option" where
  "number_shown s2f v =
     (case v of
        JStr s \<Rightarrow> s2f s
      | JNum f \<Rightarrow> Some f
      | JBool b \<Rightarrow> Some (Fin (if b then 1 else 0))
      | _ \<Rightarrow> None)"

definition probed_duration :: "env \<Rightarrow> string \<Rightarrow> pyfloat option" where
  "probed_duration E video_path =
     (case ffprobe_format E video_path of
        Raised e \<Rightarrow> None
      | Completed out \<Rightarrow>
          (case json_loads E out of
             Some (JObj kvs) \<Rightarrow>
               (case map_of kvs ''format'' of
                  Some (JObj fkvs) \<Rightarrow>
                    (case map_of fkvs ''duration'' of
                       Some v \<Rightarrow> number_shown (str_to_float E) v
                     | None \<Rightarrow> None)
                | _ \<Rightarrow> None)
           | _ \<Rightarrow> None))"

text \<open>
  The documents the probe prints: an object whose \<^verbatim>\<open>streams\<close>, when present, is a
  list of objects, and whose \<^verbatim>\<open>format\<close>, when present, is an object with a
  \<^verbatim>\<open>duration\<close> that is a string or a number, or with none.
\<close>

definition is_obj :: "json \<Rightarrow> bool" where
  "is_obj v = (case v of JObj kvs \<Rightarrow> True | _ \<Rightarrow> False)"

definition well_formed_probe :: "json \<Rightarrow> bool" where
  "well_formed_probe data =
     (case data of
        JObj kvs \<Rightarrow>
          (case map_of kvs ''streams'' of
             None \<Rightarrow> True
           | Some (JArr ss) \<Rightarrow> list_all is_obj ss
           | _ \<Rightarrow> False)
          \<and>
          (case map_of kvs ''format'' of
             None \<Rightarrow> True
           | Some (JObj fkvs) \<Rightarrow>
               (case map_of fkvs ''duration'' of
                  None \<Rightarrow> True
                | Some (JStr s) \<Rightarrow> True
                | Some (JNum f) \<Rightarrow> True
                | _ \<Rightarrow> False)
           | _ \<Rightarrow> False)
      | _ \<Rightarrow> False)"

section \<open>A sample run\<close>

text \<open>
  The scenario of the specification: two files of 1 January 2024, one of 3 January, and
  \<^verbatim>\<open>notes.txt\<close>; both tools succeed on every call.
\<close>

definition sample_probe :: json where
  "sample_probe =
     JObj [(''streams'', JArr [JObj [(''codec_type'', JStr ''video'')],
                              JObj [(''codec_type'', JStr ''audio'')]]),
           (''format'', JObj [(''duration'', JStr ''1.400000'')])]"

definition sample_env :: env where
  "sample_env =
     \<lparr>tools_found = True,
      iterdir = Inr [''2024-01-03_c-main.mp4'', ''2024-01-01_a-main.mp4'',
                     ''2024-01-01_b-main.mp4'', ''notes.txt''],
      rnd = (\<lambda>n. 0),
      ffprobe_format = (\<lambda>p. Completed ''probe''),
      ffprobe_streams = (\<lambda>p. Completed ''probe''),
      json_loads = (\<lambda>s. if s = ''probe'' then Some sample_probe else None),
      str_to_float = (\<lambda>s. if s = ''1.400000'' then Some (Fin (14 / 10)) else None),
      ffmpeg_extract = (\<lambda>r. Completed []),
      ffmpeg_concat = (\<lambda>cs out. Completed []),
      temp_dir = ''/tmp/tmpk3v9'',
      manifest_name = ''/tmp/tmpq1.txt'',
      manifest_write = (\<lambda>t. None)\<rparr>"

text \<open>The same run, except that the clip of 1 January comes out without an audio stream.\<close>

definition silent_probe :: json where
  "silent_probe =
     JObj [(''streams'', JArr [JObj [(''codec_type'', JStr ''video'')]]),
           (''format'', JObj [(''duration'', JStr ''1.400000'')])]"

definition silent_env :: env where
  "silent_env =
     sample_env
       \<lparr>ffprobe_streams :=
          (\<lambda>p. if p = ''/tmp/tmpk3v9/clip_0000_20240101.mp4'' then Completed ''silent''
                else Completed ''probe''),
        json_loads :=
          (\<lambda>s. if s = ''probe'' then Some sample_probe
                else if s = ''silent'' then Some silent_probe else None)\<rparr>"

text \<open>The same run, except that every extraction fails.\<close>

definition failing_env :: env where
  "failing_env = sample_env\<lparr>ffmpeg_extract := (\<lambda>r. Raised CalledProcessError)\<rparr>"

text \<open>The buckets of the sample directory, in the order of the listing.\<close>

definition sample_grouped :: "(date \<times> string list) list" where
  "sample_grouped =
     [((2024, 1, 3), [''2024-01-03_c-main.mp4'']),
      ((2024, 1, 1), [''2024-01-01_a-main.mp4'', ''2024-01-01_b-main.mp4''])]"

text \<open>The same run over sources that are one second long.\<close>

definition short_probe :: json where
  "short_probe = JObj [(''format'', JObj [(''duration'', JStr ''1.000000'')])]"

definition short_env :: env where
  "short_env =
     sample_env
       \<lparr>ffprobe_format := (\<lambda>p. Completed ''short''),
        json_loads :=
          (\<lambda>s. if s = ''probe'' then Some sample_probe
                else if s = ''short'' then Some short_probe else None),
        str_to_float :=
          (\<lambda>s. if s = ''1.400000'' then Some (Fin (14 / 10))
                else if s = ''1.000000'' then Some (Fin 1) else None)\<rparr>"

text \<open>The same run, except that the duration probe exits with a status other than 0.\<close>

definition noprobe_env :: env where
  "noprobe_env = sample_env\<lparr>ffprobe_format := (\<lambda>p. Raised CalledProcessError)\<rparr>"

text \<open>The same run, except that the manifest cannot be written.\<close>

definition nowrite_env :: env where
  "nowrite_env = sample_env\<lparr>manifest_write := (\<lambda>t. Some OSError)\<rparr>"

definition empty_world :: world where
  "empty_world = \<lparr>files = {}, log = []\<rparr>"

section \<open>Properties: Filename Date Parser and Day Grouper\<close>

text \<open>
  C2. The parser is to return the embedded date when the name matches the pattern and
  "no date" otherwise, never raising. At the name \<^verbatim>\<open>2024-13-01_a-main.mp4\<close> the regular
  expression matches (it asks for digits only), \<^verbatim>\<open>strptime\<close> rejects month 13, and the
  \<open>ValueError\<close> leaves the parser: neither a date nor "no date" is returned.
\<close>

theorem parse_date_invalid_month_raises:
  "parse_date_from_filename ''2024-13-01_a-main.mp4'' = Inl ValueError"
  by code_simp

text \<open>
  C8. The grouper is to drop every file without a parsable date silently. With one such
  file among the scanned ones the \<open>ValueError\<close> of the parser leaves the grouper too, and
  no buckets are returned at all.
\<close>

theorem group_by_date_invalid_month_raises:
  "group_by_date [''2024-01-01_a-main.mp4'', ''2024-13-01_b-main.mp4''] = Inl ValueError"
  by code_simp

section \<open>Properties: Clip Validator\<close>

text \<open>
  C4. A failure of the probe is to make the validator return "invalid". When the probe
  exits with a status other than 0, the validator raises \<open>UnboundLocalError\<close> instead,
  whatever the rest of the environment is.
\<close>

theorem validate_clip_probe_failure_escalates:
  "fst (validate_clip (E\<lparr>ffprobe_streams := (\<lambda>p. Raised CalledProcessError)\<rparr>) clip_path w)
     = Inl UnboundLocalError"
  by (simp add: validate_clip_def validate_clip_result_def)

text \<open>Output that is not JSON is caught: by then \<^verbatim>\<open>json\<close> is bound.\<close>

lemma validate_clip_malformed_output:
  "ffprobe_streams E p = Completed out \<Longrightarrow> json_loads E out = None
     \<Longrightarrow> fst (validate_clip E p w) = Inr False"
  by (simp add: validate_clip_def validate_clip_result_def validate_caught_def)

section \<open>Properties: Clip Extractor\<close>

text \<open>
  C9, as stated: the target duration defaults to 1.4 seconds and the start offset to 0.
  The default duration of \<^verbatim>\<open>extract_clip\<close> is not 1.4.
\<close>

theorem extract_default_duration_counterexample:
  "\<not> (t_duration (extract_cmd ''in.mp4'' ''out.mp4'' None None) = Fin (14 / 10)
      \<and> ss_start (extract_cmd ''in.mp4'' ''out.mp4'' None None) = 0)"
  by (simp add: extract_cmd_def)

text \<open>
  C9, amended: the target duration defaults to 1.6 seconds and the start offset to 0;
  a call that leaves both out asks the tool for exactly that.
\<close>

theorem extract_clip_defaults:
  "extract_cmd input_path output_path None None
     = \<lparr>src = input_path, dst = output_path, t_duration = Fin (16 / 10), ss_start = 0\<rparr>
   \<and> log (snd (extract_clip E input_path output_path None None w))
     = log w @ [Extract \<lparr>src = input_path, dst = output_path, t_duration = Fin (16 / 10), ss_start = 0\<rparr>]"
  by (simp add: extract_cmd_def extract_clip_def emit_def Let_def split: proc.splits)

section \<open>Lemmas: names and buckets\<close>

lemma lower_char_dot: "lower_char c = CHR ''.'' \<Longrightarrow> c = CHR ''.''"
  by (simp add: lower_char_def split: if_splits)

lemma lower_char_m: "lower_char c = CHR ''m'' \<Longrightarrow> c = CHR ''m'' \<or> c = CHR ''M''"
  by (simp add: lower_char_def split: if_splits)

lemma lower_char_p: "lower_char c = CHR ''p'' \<Longrightarrow> c = CHR ''p'' \<or> c = CHR ''P''"
  by (simp add: lower_char_def split: if_splits)

lemma lower_char_4: "lower_char c = CHR ''4'' \<Longrightarrow> c = CHR ''4''"
  by (simp add: lower_char_def split: if_splits)

lemma py_lower_mp4:
  assumes "py_lower ext = ''.mp4''"
  shows "\<exists>a b. ext = [CHR ''.'', a, b, CHR ''4''] \<and> (a = CHR ''m'' \<or> a = CHR ''M'')
            \<and> (b = CHR ''p'' \<or> b = CHR ''P'')"
proof -
  from assms obtain d a b c where ext: "ext = [d, a, b, c]"
    and l: "lower_char d = CHR ''.''" "lower_char a = CHR ''m''"
           "lower_char b = CHR ''p''" "lower_char c = CHR ''4''"
    by (auto simp: py_lower_def map_eq_Cons_conv)
  from l show ?thesis
    using ext lower_char_dot lower_char_m lower_char_p lower_char_4 by blast
qed

lemma rfind_none: "c \<notin> set ys \<Longrightarrow> rfind c ys = None"
  by (induction ys) auto

lemma rfind_last: "c \<notin> set ys \<Longrightarrow> rfind c (xs @ c # ys) = Some (length xs)"
  by (induction xs) (auto simp: rfind_none)

lemma suffix_of_ext:
  assumes "stem \<noteq> []" "CHR ''.'' \<notin> set ys" "ys \<noteq> []"
  shows "suffix_of (stem @ CHR ''.'' # ys) = CHR ''.'' # ys"
  using assms by (simp add: suffix_of_def rfind_last)

lemma dot_star_mp4_eol_iff:
  "dot_star_mp4_eol r \<longleftrightarrow>
     (\<exists>a. newline \<notin> set a \<and> (r = a @ ''.mp4'' \<or> r = a @ ''.mp4'' @ [newline]))"
proof
  assume "dot_star_mp4_eol r"
  then consider
      (at_end) "4 \<le> length r" "drop (length r - 4) r = ''.mp4''" "newline \<notin> set (take (length r - 4) r)"
    | (before_nl) "5 \<le> length r" "drop (length r - 5) r = ''.mp4'' @ [newline]" "newline \<notin> set (take (length r - 5) r)"
    by (auto simp: dot_star_mp4_eol_def Let_def)
  then show "\<exists>a. newline \<notin> set a \<and> (r = a @ ''.mp4'' \<or> r = a @ ''.mp4'' @ [newline])"
  proof cases
    case at_end
    have "r = take (length r - 4) r @ drop (length r - 4) r" by simp
    with at_end show ?thesis by metis
  next
    case before_nl
    have "r = take (length r - 5) r @ drop (length r - 5) r" by simp
    with before_nl show ?thesis by metis
  qed
next
  assume "\<exists>a. newline \<notin> set a \<and> (r = a @ ''.mp4'' \<or> r = a @ ''.mp4'' @ [newline])"
  then obtain a where a: "newline \<notin> set a" and r: "r = a @ ''.mp4'' \<or> r = a @ ''.mp4'' @ [newline]"
    by blast
  from r show "dot_star_mp4_eol r"
  proof
    assume "r = a @ ''.mp4''"
    with a show ?thesis by (simp add: dot_star_mp4_eol_def Let_def)
  next
    assume "r = a @ ''.mp4'' @ [newline]"
    with a show ?thesis by (simp add: dot_star_mp4_eol_def Let_def)
  qed
qed

lemma re_match_ends:
  assumes "re_match s = Some g"
  shows "\<exists>pre. s = pre @ ''.mp4'' \<or> s = pre @ ''.mp4'' @ [newline]"
proof -
  from assms have "dot_star_mp4_eol (drop 11 s)"
    by (simp add: re_match_def split: if_splits)
  then obtain a where "drop 11 s = a @ ''.mp4'' \<or> drop 11 s = a @ ''.mp4'' @ [newline]"
    by (auto simp: dot_star_mp4_eol_iff)
  moreover have "s = take 11 s @ drop 11 s" by simp
  ultimately have "s = (take 11 s @ a) @ ''.mp4'' \<or> s = (take 11 s @ a) @ ''.mp4'' @ [newline]"
    by (metis append.assoc)
  then show ?thesis by blast
qed

lemma re_match_other_case:
  assumes "py_lower ext = ''.mp4''" "ext \<noteq> ''.mp4''"
  shows "re_match (stem @ ext) = None"
proof (rule ccontr)
  assume "re_match (stem @ ext) \<noteq> None"
  then obtain g where "re_match (stem @ ext) = Some g" by blast
  then obtain pre where pre: "stem @ ext = pre @ ''.mp4'' \<or> stem @ ext = pre @ ''.mp4'' @ [newline]"
    using re_match_ends by blast
  from assms(1) obtain a b where ext: "ext = [CHR ''.'', a, b, CHR ''4'']"
    using py_lower_mp4 by blast
  from pre show False
  proof
    assume "stem @ ext = pre @ ''.mp4''"
    moreover have "length ext = length ''.mp4''" using ext by simp
    ultimately have "ext = ''.mp4''" by (metis append_eq_append_conv)
    with assms(2) show False by simp
  next
    assume "stem @ ext = pre @ ''.mp4'' @ [newline]"
    then have "last (stem @ ext) = last (pre @ ''.mp4'' @ [newline])" by simp
    then show False using ext by (simp add: newline_def)
  qed
qed

lemma dd_append_mem:
  "(d, vs) \<in> set (dd_append g k v) \<Longrightarrow> f \<in> set vs
     \<Longrightarrow> (\<exists>vs0. (d, vs0) \<in> set g \<and> f \<in> set vs0) \<or> (d = k \<and> f = v)"
  by (induction g k v rule: dd_append.induct) (auto split: if_splits)

lemma group_loop_mem:
  "group_loop fs g0 = Inr g \<Longrightarrow> (d, vs) \<in> set g \<Longrightarrow> f \<in> set vs
     \<Longrightarrow> (\<exists>vs0. (d, vs0) \<in> set g0 \<and> f \<in> set vs0)
         \<or> (f \<in> set fs \<and> parse_date_from_filename f = Inr (Some d))"
proof (induction fs arbitrary: g0)
  case Nil
  then show ?case by auto
next
  case (Cons x xs)
  show ?case
  proof (cases "parse_date_from_filename x")
    case (Inl e)
    with Cons.prems show ?thesis by simp
  next
    case (Inr od)
    show ?thesis
    proof (cases od)
      case None
      with Inr Cons.prems have "group_loop xs g0 = Inr g" by simp
      from Cons.IH[OF this Cons.prems(2,3)] show ?thesis by auto
    next
      case (Some k)
      with Inr Cons.prems have "group_loop xs (dd_append g0 k x) = Inr g" by simp
      from Cons.IH[OF this Cons.prems(2,3)]
      show ?thesis using dd_append_mem[of d _ g0 k x f] Inr Some by auto
    qed
  qed
qed

lemma group_by_date_mem:
  "group_by_date fs = Inr g \<Longrightarrow> (d, vs) \<in> set g \<Longrightarrow> f \<in> set vs
     \<Longrightarrow> f \<in> set fs \<and> parse_date_from_filename f = Inr (Some d)"
  using group_loop_mem[of fs "[]" g d vs f] by (simp add: group_by_date_def)

section \<open>Lemmas: the loop of the Pipeline Driver\<close>

lemma emit_log: "log (emit ev w) = log w @ [ev]"
  by (simp add: emit_def)

lemma emit_files: "files (emit ev w) = files w"
  by (simp add: emit_def)

lemma extract_clip_cases:
  assumes "extract_clip E i out d s w = (r, w')"
  shows "log w' = log w @ [Extract (extract_cmd i out d s)]
       \<and> files w' \<subseteq> insert out (files w)"
  using assms
  by (auto simp: extract_clip_def Let_def emit_def split: proc.splits if_splits)

lemma extract_loop_step:
  "extract_loop E sel ((i, d) # rest) clips w =
     (case map_of sel d of
        None \<Rightarrow> (Inl KeyError, w)
      | Some video \<Rightarrow>
          (case get_video_duration_result E (path_str video) of
             Inl e \<Rightarrow> (Inl e, emit (ProbeFormat (path_str video)) w)
           | Inr duration \<Rightarrow>
               (case extract_clip E (path_str video) (clip_path_of E i d)
                       (Some (py_min clip_duration duration)) (Some 0)
                       (emit (ProbeFormat (path_str video)) w) of
                  (Inl e, w2) \<Rightarrow> (Inl e, w2)
                | (Inr False, w2) \<Rightarrow> extract_loop E sel rest clips w2
                | (Inr True, w2) \<Rightarrow>
                    (case validate_clip_result E (clip_path_of E i d) of
                       Inl e \<Rightarrow> (Inl e, emit (ProbeStreams (clip_path_of E i d)) w2)
                     | Inr False \<Rightarrow> extract_loop E sel rest clips (emit (ProbeStreams (clip_path_of E i d)) w2)
                     | Inr True \<Rightarrow> extract_loop E sel rest (clips @ [(d, clip_path_of E i d)])
                                     (emit (ProbeStreams (clip_path_of E i d)) w2)))))"
  by (simp add: get_video_duration_def validate_clip_def Let_def
           split: option.splits sum.splits prod.splits bool.splits)

lemma extract_loop_round:
  assumes "extract_loop E sel ((i, d) # rest) clips w = (r, w')"
  obtains (key_error) "map_of sel d = None" "r = Inl KeyError" "w' = w"
  | (round) video w2 evs clips2 where
      "map_of sel d = Some video"
      "log w2 = log w @ evs" "round_events E video i d evs"
      "files w2 \<subseteq> insert (clip_path_of E i d) (files w)"
      "(\<exists>e. r = Inl e \<and> w' = w2) \<or> extract_loop E sel rest clips2 w2 = (r, w')"
      "clips2 = clips \<or>
       (clips2 = clips @ [(d, clip_path_of E i d)] \<and>
        validate_clip_result E (clip_path_of E i d) = Inr True)"
proof (cases "map_of sel d")
  case None
  with assms have "r = Inl KeyError" "w' = w" by (simp_all add: extract_loop_step del: extract_loop.simps)
  with None show ?thesis by (rule key_error)
next
  case (Some video)
  let ?p = "path_str video" and ?c = "clip_path_of E i d"
  let ?w1 = "emit (ProbeFormat ?p) w"
  show ?thesis
  proof (cases "get_video_duration_result E ?p")
    case (Inl e)
    with Some assms have "r = Inl e" "w' = ?w1" by (simp_all add: extract_loop_step del: extract_loop.simps)
    moreover have "log ?w1 = log w @ [ProbeFormat ?p]" by (simp add: emit_log)
    moreover have "round_events E video i d [ProbeFormat ?p]" by (simp add: round_events_def)
    moreover have "files ?w1 \<subseteq> insert ?c (files w)" by (auto simp: emit_files)
    ultimately show ?thesis using Some round[of video ?w1 "[ProbeFormat ?p]" clips] by blast
  next
    case (Inr dur)
    let ?cmd = "extract_cmd ?p ?c (Some (py_min clip_duration dur)) (Some 0)"
    obtain r2 w2 where ex: "extract_clip E ?p ?c (Some (py_min clip_duration dur)) (Some 0) ?w1 = (r2, w2)"
      by (cases "extract_clip E ?p ?c (Some (py_min clip_duration dur)) (Some 0) ?w1")
    from extract_clip_cases[OF ex]
    have log2: "log w2 = log w @ [ProbeFormat ?p, Extract ?cmd]"
      and files2: "files w2 \<subseteq> insert ?c (files w)"
      by (simp_all add: emit_log emit_files)
    have ev2: "round_events E video i d [ProbeFormat ?p, Extract ?cmd]"
      using Inr by (simp add: round_events_def)
    let ?w3 = "emit (ProbeStreams ?c) w2"
    have log3: "log ?w3 = log w @ [ProbeFormat ?p, Extract ?cmd, ProbeStreams ?c]"
      by (simp add: emit_log log2)
    have files3: "files ?w3 \<subseteq> insert ?c (files w)"
      using files2 by (simp add: emit_files)
    have ev3: "round_events E video i d [ProbeFormat ?p, Extract ?cmd, ProbeStreams ?c]"
      using Inr by (simp add: round_events_def)
    show ?thesis
    proof (cases r2)
      case (Inl e)
      with Some Inr ex assms have "r = Inl e" "w' = w2" by (simp_all add: extract_loop_step del: extract_loop.simps)
      then show ?thesis using Some log2 ev2 files2 round[of video w2 _ clips] by blast
    next
      case extracted: (Inr ok)
      show ?thesis
      proof (cases ok)
        case False
        with extracted Some Inr ex assms have "extract_loop E sel rest clips w2 = (r, w')"
          by (simp add: extract_loop_step del: extract_loop.simps)
        then show ?thesis using Some log2 ev2 files2 round[of video w2 _ clips] by blast
      next
        case True
        show ?thesis
        proof (cases "validate_clip_result E ?c")
          case (Inl e)
          with True extracted Some Inr ex assms have "r = Inl e" "w' = ?w3"
            by (simp_all add: extract_loop_step del: extract_loop.simps)
          then show ?thesis using Some log3 ev3 files3 round[of video ?w3 _ clips] by blast
        next
          case validated: (Inr valid)
          show ?thesis
          proof (cases valid)
            case False
            with validated True extracted Some Inr ex assms
            have "extract_loop E sel rest clips ?w3 = (r, w')"
              by (simp add: extract_loop_step del: extract_loop.simps)
            then show ?thesis using Some log3 ev3 files3 round[of video ?w3 _ clips] by blast
          next
            case valid: True
            with validated True extracted Some Inr ex assms
            have "extract_loop E sel rest (clips @ [(d, ?c)]) ?w3 = (r, w')"
              by (simp add: extract_loop_step del: extract_loop.simps)
            moreover have "validate_clip_result E ?c = Inr True"
              using validated valid by simp
            ultimately show ?thesis
              using Some log3 ev3 files3 round[of video ?w3 _ "clips @ [(d, ?c)]"] by blast
          qed
        qed
      qed
    qed
  qed
qed

lemma extract_loop_valid:
  "extract_loop E sel xs clips w = (Inr clips', w')
     \<Longrightarrow> \<forall>c\<in>set clips. validate_clip_result E (snd c) = Inr True
     \<Longrightarrow> \<forall>c\<in>set clips'. validate_clip_result E (snd c) = Inr True"
proof (induction xs arbitrary: clips w)
  case Nil
  then show ?case by simp
next
  case (Cons x xs)
  obtain i d where x: "x = (i, d)" by (cases x)
  from Cons.prems(1)[unfolded x] show ?case
  proof (cases rule: extract_loop_round)
    case key_error
    then show ?thesis by simp
  next
    case (round video w2 evs clips2)
    from round(5) have "extract_loop E sel xs clips2 w2 = (Inr clips', w')" by auto
    moreover from round(6) Cons.prems(2)
    have "\<forall>c\<in>set clips2. validate_clip_result E (snd c) = Inr True" by auto
    ultimately show ?thesis by (rule Cons.IH)
  qed
qed

lemma sorted_wrt_drop_middle:
  "sorted_wrt (<) (as @ d # bs) \<Longrightarrow> sorted_wrt (<) (as @ bs)"
  by (auto simp: sorted_wrt_append)

lemma extract_loop_sorted:
  "extract_loop E sel xs clips w = (Inr clips', w')
     \<Longrightarrow> sorted_wrt (<) (map fst clips @ map snd xs)
     \<Longrightarrow> sorted_wrt (<) (map fst clips')"
proof (induction xs arbitrary: clips w)
  case Nil
  then show ?case by simp
next
  case (Cons x xs)
  obtain i d where x: "x = (i, d)" by (cases x)
  from Cons.prems(1)[unfolded x] show ?case
  proof (cases rule: extract_loop_round)
    case key_error
    then show ?thesis by simp
  next
    case (round video w2 evs clips2)
    from round(5) have "extract_loop E sel xs clips2 w2 = (Inr clips', w')" by auto
    moreover from round(6)
    have "sorted_wrt (<) (map fst clips2 @ map snd xs)"
    proof
      assume "clips2 = clips"
      then show ?thesis
        using Cons.prems(2) sorted_wrt_drop_middle[of "map fst clips" d "map snd xs"]
        by (simp add: x)
    next
      assume "clips2 = clips @ [(d, clip_path_of E i d)] \<and>
        validate_clip_result E (clip_path_of E i d) = Inr True"
      then show ?thesis using Cons.prems(2) by (simp add: x)
    qed
    ultimately show ?thesis by (rule Cons.IH)
  qed
qed

lemma loop_event_Cons: "loop_event E sel xs ev \<Longrightarrow> loop_event E sel (x # xs) ev"
  unfolding loop_event_def by (meson list.set_intros(2))

lemma loop_event_here:
  "map_of sel d = Some video \<Longrightarrow> round_events E video i d evs \<Longrightarrow> ev \<in> set evs
     \<Longrightarrow> loop_event E sel ((i, d) # xs) ev"
  unfolding loop_event_def round_events_def by (metis list.set_intros(1) empty_iff empty_set set_ConsD)

lemma extract_loop_log:
  "extract_loop E sel xs clips w = (r, w')
     \<Longrightarrow> \<exists>evs. log w' = log w @ evs \<and> (\<forall>ev\<in>set evs. loop_event E sel xs ev)"
proof (induction xs arbitrary: clips w)
  case Nil
  then show ?case by simp
next
  case (Cons x xs)
  obtain i d where x: "x = (i, d)" by (cases x)
  from Cons.prems(1)[unfolded x] show ?case
  proof (cases rule: extract_loop_round)
    case key_error
    then show ?thesis by simp
  next
    case (round video w2 evs clips2)
    have here: "\<forall>ev\<in>set evs. loop_event E sel (x # xs) ev"
      using round(1,3) loop_event_here unfolding x by blast
    from round(5) show ?thesis
    proof
      assume "\<exists>e. r = Inl e \<and> w' = w2"
      with round(2) here show ?thesis by blast
    next
      assume "extract_loop E sel xs clips2 w2 = (r, w')"
      from Cons.IH[OF this] obtain evs2 where
        evs2: "log w' = log w2 @ evs2" "\<forall>ev\<in>set evs2. loop_event E sel xs ev" by blast
      have "log w' = log w @ (evs @ evs2)" using evs2(1) round(2) by simp
      moreover have "\<forall>ev\<in>set (evs @ evs2). loop_event E sel (x # xs) ev"
        using here evs2(2) loop_event_Cons[of E sel xs _ x] by (metis Un_iff set_append)
      ultimately show ?thesis by blast
    qed
  qed
qed

lemma extract_loop_files:
  "extract_loop E sel xs clips w = (r, w')
     \<Longrightarrow> files w' \<subseteq> files w \<union> (\<lambda>(i, d). clip_path_of E i d) ` set xs"
proof (induction xs arbitrary: clips w)
  case Nil
  then show ?case by simp
next
  case (Cons x xs)
  obtain i d where x: "x = (i, d)" by (cases x)
  from Cons.prems(1)[unfolded x] show ?case
  proof (cases rule: extract_loop_round)
    case key_error
    then show ?thesis by auto
  next
    case (round video w2 evs clips2)
    from round(5) show ?thesis
    proof
      assume "\<exists>e. r = Inl e \<and> w' = w2"
      with round(4) show ?thesis by (auto simp: x)
    next
      assume "extract_loop E sel xs clips2 w2 = (r, w')"
      from Cons.IH[OF this] round(4) show ?thesis by (auto simp: x)
    qed
  qed
qed

section \<open>Lemmas: grouping, selection, sorted dates\<close>

lemma dd_append_keys:
  "map fst (dd_append g k v) = (if k \<in> fst ` set g then map fst g else map fst g @ [k])"
  by (induction g k v rule: dd_append.induct) (auto simp: image_iff)

lemma dd_append_distinct: "distinct (map fst g) \<Longrightarrow> distinct (map fst (dd_append g k v))"
  by (simp add: dd_append_keys)

lemma group_loop_distinct:
  "group_loop fs g0 = Inr g \<Longrightarrow> distinct (map fst g0) \<Longrightarrow> distinct (map fst g)"
proof (induction fs arbitrary: g0)
  case Nil
  then show ?case by simp
next
  case (Cons x xs)
  then show ?case
    by (auto split: sum.splits option.splits intro: dd_append_distinct)
qed

lemma group_by_date_distinct: "group_by_date fs = Inr g \<Longrightarrow> distinct (map fst g)"
  using group_loop_distinct[of fs "[]" g] by (simp add: group_by_date_def)

lemma select_loop_keys:
  "map fst (select_loop rs n g) = map fst (filter (\<lambda>b. snd b \<noteq> []) g)"
  by (induction rs n g rule: select_loop.induct) auto

lemma select_distinct:
  "distinct (map fst g) \<Longrightarrow> distinct (map fst (select_one_per_day rs g))"
  by (simp add: select_one_per_day_def select_loop_keys distinct_map_filter)

lemma random_choice_mem: "xs \<noteq> [] \<Longrightarrow> random_choice r xs \<in> set xs"
  by (simp add: random_choice_def)

lemma select_loop_mem:
  "(d, v) \<in> set (select_loop rs n g) \<Longrightarrow> \<exists>vs. (d, vs) \<in> set g \<and> v \<in> set vs"
  by (induction rs n g rule: select_loop.induct)
     (auto split: if_splits simp: random_choice_mem)

lemma select_mem:
  "(d, v) \<in> set (select_one_per_day rs g) \<Longrightarrow> \<exists>vs. (d, vs) \<in> set g \<and> v \<in> set vs"
  unfolding select_one_per_day_def by (rule select_loop_mem)

lemma sorted_dates_strict:
  "distinct (ds :: date list) \<Longrightarrow> sorted_wrt (<) (sort ds)"
  by (simp add: strict_sorted_iff)

lemma select_sort_extract_sorted:
  assumes "select_sort_extract E grouped w = (Inr clips, w1)" "distinct (map fst grouped)"
  shows "sorted_wrt (<) (map fst clips)"
proof -
  let ?sel = "select_one_per_day (rnd E) grouped"
  have "sorted_wrt (<) (map fst ([] :: (date \<times> string) list) @ map snd (enumerate 0 (sort (map fst ?sel))))"
    using select_distinct[OF assms(2)] by (simp add: sorted_dates_strict)
  with assms(1) show ?thesis
    unfolding select_sort_extract_def Let_def by (rule extract_loop_sorted)
qed

lemma select_sort_extract_valid:
  assumes "select_sort_extract E grouped w = (Inr clips, w1)"
  shows "\<forall>c\<in>set clips. validate_clip_result E (snd c) = Inr True"
  using assms extract_loop_valid[of E _ _ "[]" w clips w1]
  unfolding select_sort_extract_def Let_def by simp

section \<open>Lemmas: Concatenator and Pipeline Driver\<close>

lemma flt_lt_irrefl: "\<not> flt_lt a a"
  by (cases a) auto

lemma flt_lt_asym: "flt_lt a b \<Longrightarrow> \<not> flt_lt b a"
  by (cases a; cases b) auto

lemma py_min_le_left: "\<not> flt_lt a (py_min a b)"
  by (simp add: py_min_def flt_lt_irrefl flt_lt_asym)

lemma py_min_le_right: "\<not> flt_lt b (py_min a b)"
  by (simp add: py_min_def flt_lt_irrefl)

lemma concatenate_videos_write_failure:
  assumes "manifest_write E (create_concat_file clip_paths) = Some e"
  shows "concatenate_videos E clip_paths out w
           = (Inl e, w\<lparr>files := insert (manifest_name E) (files w)\<rparr>)"
  using assms by (simp add: concatenate_videos_def Let_def)

lemma concatenate_videos_log:
  "log (snd (concatenate_videos E clip_paths out w)) = log w \<or>
   log (snd (concatenate_videos E clip_paths out w))
     = log w @ [WriteManifest (manifest_name E) (create_concat_file clip_paths),
                Concat (manifest_name E) out]"
  by (auto simp: concatenate_videos_def Let_def os_unlink_def emit_def
           split: proc.splits option.splits)

lemma cleanup_log: "log (cleanup E w) = log w"
  by (simp add: cleanup_def)

lemma cleanup_files: "files (cleanup E w) \<subseteq> files w"
  by (auto simp: cleanup_def)

lemma select_sort_extract_log:
  assumes "select_sort_extract E grouped w = (r, w1)"
  shows "\<exists>evs. log w1 = log w @ evs \<and>
           (\<forall>ev\<in>set evs. loop_event E (select_one_per_day (rnd E) grouped)
                             (enumerate 0 (sort (map fst (select_one_per_day (rnd E) grouped)))) ev)"
  using assms unfolding select_sort_extract_def Let_def by (rule extract_loop_log)

lemma select_sort_extract_files:
  assumes "select_sort_extract E grouped w = (r, w1)"
  shows "files w1 \<subseteq> files w \<union> range (\<lambda>(i, d). clip_path_of E i d)"
  using assms extract_loop_files[of E _ _ "[]" w r w1]
  unfolding select_sort_extract_def Let_def by blast

lemma clip_path_not_output: "clip_path_of E i d \<noteq> output_file"
proof
  assume "clip_path_of E i d = output_file"
  then have "set (clip_path_of E i d) = set output_file" by simp
  moreover have "CHR ''/'' \<in> set (clip_path_of E i d)" by (simp add: clip_path_of_def)
  moreover have "CHR ''/'' \<notin> set output_file" by (simp add: output_file_def)
  ultimately show False by simp
qed

lemma loop_event_not_concat: "\<not> loop_event E sel xs (Concat m out)"
  by (simp add: loop_event_def round_events_def)

lemma loop_event_extract:
  assumes "loop_event E sel xs (Extract r)"
  shows "\<exists>i d video dur. (i, d) \<in> set xs \<and> map_of sel d = Some video
           \<and> get_video_duration_result E (path_str video) = Inr dur
           \<and> r = extract_cmd (path_str video) (clip_path_of E i d)
                    (Some (py_min clip_duration dur)) (Some 0)"
  using assms unfolding loop_event_def round_events_def by auto

text \<open>Where \<^verbatim>\<open>main\<close> stands when it has come through the loop.\<close>

lemma main_unfold:
  assumes "tools_found E" "iterdir E = Inr entries" "get_video_files entries \<noteq> []"
    "group_by_date (get_video_files entries) = Inr grouped"
    "select_sort_extract E grouped w = (r, w1)"
  shows "main E w =
     (case r of
        Inl e \<Rightarrow> (Inl e, cleanup E w1)
      | Inr clips \<Rightarrow>
          if clips = [] then (Inr NoClips, cleanup E w1)
          else (case concatenate_videos E (map snd clips) output_file w1 of
                  (Inl e, w2) \<Rightarrow> (Inl e, cleanup E w2)
                | (Inr True, w2) \<Rightarrow> (Inr (Compiled (length clips)), cleanup E w2)
                | (Inr False, w2) \<Rightarrow> (Inr ConcatFailed, cleanup E w2)))"
  using assms by (simp add: main_def Let_def)

lemma main_early:
  assumes "\<not> (\<exists>entries grouped. tools_found E \<and> iterdir E = Inr entries
              \<and> get_video_files entries \<noteq> []
              \<and> group_by_date (get_video_files entries) = Inr grouped)"
  shows "snd (main E w) = w \<and> (\<forall>n. fst (main E w) \<noteq> Inr (Compiled n))"
  using assms by (auto simp: main_def Let_def split: sum.splits)

lemma main_log:
  "\<exists>evs. log (snd (main E w)) = log w @ evs \<and>
     (evs = [] \<or>
      (\<exists>entries grouped. iterdir E = Inr entries
         \<and> group_by_date (get_video_files entries) = Inr grouped
         \<and> (\<forall>ev\<in>set evs.
               loop_event E (select_one_per_day (rnd E) grouped)
                 (enumerate 0 (sort (map fst (select_one_per_day (rnd E) grouped)))) ev
               \<or> (\<exists>m t. ev = WriteManifest m t) \<or> (\<exists>m out. ev = Concat m out))))"
proof (cases "\<exists>entries grouped. tools_found E \<and> iterdir E = Inr entries
              \<and> get_video_files entries \<noteq> []
              \<and> group_by_date (get_video_files entries) = Inr grouped")
  case False
  then have "snd (main E w) = w" using main_early by blast
  then show ?thesis by simp
next
  case True
  then obtain entries grouped where pre: "tools_found E" "iterdir E = Inr entries"
    "get_video_files entries \<noteq> []" "group_by_date (get_video_files entries) = Inr grouped"
    by blast
  let ?sel = "select_one_per_day (rnd E) grouped"
  let ?xs = "enumerate 0 (sort (map fst ?sel))"
  obtain r w1 where loop: "select_sort_extract E grouped w = (r, w1)"
    by (cases "select_sort_extract E grouped w")
  from select_sort_extract_log[OF loop] obtain evs where
    evs: "log w1 = log w @ evs" "\<forall>ev\<in>set evs. loop_event E ?sel ?xs ev" by blast
  note m = main_unfold[OF pre loop]
  have "log (snd (main E w)) = log w1
      \<or> (\<exists>m t out. log (snd (main E w)) = log w1 @ [WriteManifest m t, Concat m out])"
  proof (cases r)
    case (Inl e)
    then show ?thesis using m by (simp add: cleanup_log)
  next
    case (Inr clips)
    show ?thesis
    proof (cases "clips = []")
      case True
      then show ?thesis using m Inr by (simp add: cleanup_log)
    next
      case False
      obtain rc w2 where c: "concatenate_videos E (map snd clips) output_file w1 = (rc, w2)"
        by (cases "concatenate_videos E (map snd clips) output_file w1")
      have "log (snd (main E w)) = log w2"
        using m Inr False c by (auto simp: cleanup_log split: sum.splits bool.splits)
      moreover have "log w2 = log w1 \<or>
        log w2 = log w1 @ [WriteManifest (manifest_name E) (create_concat_file (map snd clips)),
                           Concat (manifest_name E) output_file]"
        using concatenate_videos_log[of E "map snd clips" output_file w1] c by simp
      ultimately show ?thesis by auto
    qed
  qed
  then show ?thesis
  proof
    assume "log (snd (main E w)) = log w1"
    then have "log (snd (main E w)) = log w @ evs" using evs(1) by simp
    moreover have "\<forall>ev\<in>set evs. loop_event E ?sel ?xs ev
               \<or> (\<exists>m t. ev = WriteManifest m t) \<or> (\<exists>m out. ev = Concat m out)"
      using evs(2) by blast
    ultimately show ?thesis using pre(2,4) by blast
  next
    assume "\<exists>m t out. log (snd (main E w)) = log w1 @ [WriteManifest m t, Concat m out]"
    then obtain m t out where "log (snd (main E w)) = log w1 @ [WriteManifest m t, Concat m out]"
      by blast
    then have "log (snd (main E w)) = log w @ (evs @ [WriteManifest m t, Concat m out])"
      using evs(1) by simp
    moreover have "\<forall>ev\<in>set (evs @ [WriteManifest m t, Concat m out]). loop_event E ?sel ?xs ev
               \<or> (\<exists>m t. ev = WriteManifest m t) \<or> (\<exists>m out. ev = Concat m out)"
      using evs(2) by auto
    ultimately show ?thesis using pre(2,4) by blast
  qed
qed

section \<open>Lemmas: the validator on the documents the probe prints\<close>

lemma is_obj_iff: "is_obj v \<longleftrightarrow> (\<exists>kvs. v = JObj kvs)"
  by (cases v) (simp_all add: is_obj_def)

lemma scan_streams_objs:
  "list_all is_obj ss \<Longrightarrow>
   scan_streams ss hv ha =
     Inr (hv \<or> list_ex (\<lambda>s. codec_type_of s = Some (JStr ''video'')) ss,
          ha \<or> list_ex (\<lambda>s. codec_type_of s = Some (JStr ''audio'')) ss)"
proof (induction ss arbitrary: hv ha)
  case Nil
  then show ?case by simp
next
  case (Cons s ss)
  from Cons.prems have "is_obj s" and rest: "list_all is_obj ss" by simp_all
  then obtain kvs where s: "s = JObj kvs" using is_obj_iff by blast
  show ?case
    unfolding s using Cons.IH[OF rest]
    by (auto simp: py_get_def codec_type_of_def split: option.splits)
qed

lemma well_formed_streams:
  assumes "well_formed_probe data"
  shows "py_get data ''streams'' (JArr []) = Inr (JArr (streams_of data))
       \<and> list_all is_obj (streams_of data)"
  using assms
  by (auto simp: well_formed_probe_def py_get_def streams_of_def split: json.splits option.splits)

lemma well_formed_duration:
  assumes "well_formed_probe data"
  shows "read_duration s2f data = Inr (shown_duration s2f data)
       \<or> (read_duration s2f data = Inl ValueError \<and> shown_duration s2f data = None)"
  using assms
  by (auto simp: well_formed_probe_def read_duration_def shown_duration_def py_contains_def
                 py_getitem_def py_float_def
           split: json.splits option.splits)

lemma validate_checks_spec:
  "validate_checks (shows_stream ''video'' data) (shows_stream ''audio'' data) (shown_duration s2f data)
     = (\<not> invalid_by_probe s2f data)"
  by (auto simp: validate_checks_def invalid_by_probe_def split: option.splits)

lemma validate_body_well_formed:
  assumes "well_formed_probe data"
  shows "validate_body s2f data = Inr (\<not> invalid_by_probe s2f data)
       \<or> (validate_body s2f data = Inl ValueError \<and> invalid_by_probe s2f data)"
proof -
  from well_formed_streams[OF assms]
  have st: "py_get data ''streams'' (JArr []) = Inr (JArr (streams_of data))"
    and objs: "list_all is_obj (streams_of data)" by simp_all
  have scan: "scan_streams (streams_of data) False False
                = Inr (shows_stream ''video'' data, shows_stream ''audio'' data)"
    using scan_streams_objs[OF objs, of False False] by (simp add: shows_stream_def)
  from well_formed_duration[OF assms, of s2f] show ?thesis
  proof
    assume "read_duration s2f data = Inr (shown_duration s2f data)"
    then have "validate_body s2f data = Inr (\<not> invalid_by_probe s2f data)"
      by (simp add: validate_body_def st py_iter_def scan validate_checks_spec)
    then show ?thesis by simp
  next
    assume a: "read_duration s2f data = Inl ValueError \<and> shown_duration s2f data = None"
    then have "validate_body s2f data = Inl ValueError"
      by (simp add: validate_body_def st py_iter_def scan)
    moreover have "invalid_by_probe s2f data" using a by (simp add: invalid_by_probe_def)
    ultimately show ?thesis by simp
  qed
qed

lemma validate_clip_well_formed:
  assumes "ffprobe_streams E p = Completed out" "json_loads E out = Some data"
    "well_formed_probe data"
  shows "validate_clip_result E p = Inr (\<not> invalid_by_probe (str_to_float E) data)"
  using validate_body_well_formed[OF assms(3), of "str_to_float E"] assms(1,2)
  by (auto simp: validate_clip_result_def validate_caught_def)

section \<open>Lemmas: what the parser and the grouper do otherwise\<close>

lemma parse_date_no_match:
  "re_match f = None \<Longrightarrow> parse_date_from_filename f = Inr None"
  by (simp add: parse_date_from_filename_def)

lemma parse_date_valid:
  "re_match f = Some g \<Longrightarrow> strptime_ymd g = Inr d \<Longrightarrow> parse_date_from_filename f = Inr (Some d)"
  by (simp add: parse_date_from_filename_def)

lemma parse_date_raises_iff:
  "(\<exists>e. parse_date_from_filename f = Inl e)
     \<longleftrightarrow> (\<exists>g. re_match f = Some g \<and> strptime_ymd g = Inl ValueError)"
  by (auto simp: parse_date_from_filename_def strptime_ymd_def Let_def
           split: option.splits sum.splits if_splits)

lemma dd_append_keeps:
  "(d, vs0) \<in> set g \<Longrightarrow> f \<in> set vs0 \<Longrightarrow> \<exists>vs. (d, vs) \<in> set (dd_append g k v) \<and> f \<in> set vs"
  by (induction g k v rule: dd_append.induct) auto

lemma dd_append_adds: "\<exists>vs. (k, vs) \<in> set (dd_append g k v) \<and> v \<in> set vs"
  by (induction g k v rule: dd_append.induct) auto

lemma group_loop_keeps:
  "group_loop fs g0 = Inr g \<Longrightarrow> (d, vs0) \<in> set g0 \<Longrightarrow> f \<in> set vs0
     \<Longrightarrow> \<exists>vs. (d, vs) \<in> set g \<and> f \<in> set vs"
proof (induction fs arbitrary: g0 vs0)
  case Nil
  then show ?case by auto
next
  case (Cons x xs)
  show ?case
  proof (cases "parse_date_from_filename x")
    case (Inl e)
    with Cons.prems show ?thesis by simp
  next
    case (Inr od)
    show ?thesis
    proof (cases od)
      case None
      with Inr Cons.prems have "group_loop xs g0 = Inr g" by simp
      from Cons.IH[OF this Cons.prems(2,3)] show ?thesis .
    next
      case (Some k)
      with Inr Cons.prems have l: "group_loop xs (dd_append g0 k x) = Inr g" by simp
      from dd_append_keeps[OF Cons.prems(2,3), of k x] obtain vs1 where
        "(d, vs1) \<in> set (dd_append g0 k x)" "f \<in> set vs1" by blast
      from Cons.IH[OF l this] show ?thesis .
    qed
  qed
qed

lemma group_loop_complete:
  "group_loop fs g0 = Inr g \<Longrightarrow> f \<in> set fs \<Longrightarrow> parse_date_from_filename f = Inr (Some d)
     \<Longrightarrow> \<exists>vs. (d, vs) \<in> set g \<and> f \<in> set vs"
proof (induction fs arbitrary: g0)
  case Nil
  then show ?case by simp
next
  case (Cons x xs)
  show ?case
  proof (cases "parse_date_from_filename x")
    case (Inl e)
    with Cons.prems show ?thesis by simp
  next
    case (Inr od)
    show ?thesis
    proof (cases od)
      case None
      with Inr Cons.prems have l: "group_loop xs g0 = Inr g" and "f \<in> set xs" by auto
      from Cons.IH[OF l this(2) Cons.prems(3)] show ?thesis .
    next
      case (Some k)
      with Inr Cons.prems have l: "group_loop xs (dd_append g0 k x) = Inr g" by simp
      show ?thesis
      proof (cases "f = x")
        case True
        with Inr Some Cons.prems(3) have "k = d" by simp
        with True dd_append_adds[of k g0 x] obtain vs1 where
          "(d, vs1) \<in> set (dd_append g0 k x)" "f \<in> set vs1" by blast
        from group_loop_keeps[OF l this] show ?thesis .
      next
        case False
        with Cons.prems(2) have "f \<in> set xs" by simp
        from Cons.IH[OF l this Cons.prems(3)] show ?thesis .
      qed
    qed
  qed
qed

lemma group_loop_total:
  "\<forall>f\<in>set fs. \<forall>e. parse_date_from_filename f \<noteq> Inl e \<Longrightarrow> \<exists>g. group_loop fs g0 = Inr g"
proof (induction fs arbitrary: g0)
  case Nil
  then show ?case by simp
next
  case (Cons x xs)
  then show ?case by (cases "parse_date_from_filename x") (auto split: option.splits)
qed

text \<open>
  On a listing in which no name makes the parser raise, the grouper returns buckets, and
  they hold exactly the files with a parsed date, each under its date.
\<close>

lemma group_by_date_exact:
  assumes "\<forall>f\<in>set fs. \<forall>e. parse_date_from_filename f \<noteq> Inl e"
  shows "\<exists>g. group_by_date fs = Inr g \<and> distinct (map fst g)
           \<and> (\<forall>d f. (\<exists>vs. (d, vs) \<in> set g \<and> f \<in> set vs)
                       \<longleftrightarrow> f \<in> set fs \<and> parse_date_from_filename f = Inr (Some d))"
proof -
  from group_loop_total[OF assms, of "[]"] obtain g where g: "group_by_date fs = Inr g"
    by (auto simp: group_by_date_def)
  have "\<forall>d f. (\<exists>vs. (d, vs) \<in> set g \<and> f \<in> set vs)
                       \<longleftrightarrow> f \<in> set fs \<and> parse_date_from_filename f = Inr (Some d)"
    using group_by_date_mem[OF g] group_loop_complete[of fs "[]" g] g
    unfolding group_by_date_def by blast
  with g group_by_date_distinct[OF g] show ?thesis by blast
qed

section \<open>Lemmas: clip paths, and two runs that abort\<close>

lemma extract_loop_paths:
  "extract_loop E sel xs clips w = (Inr clips', w')
     \<Longrightarrow> \<forall>c\<in>set clips. \<exists>i. snd c = clip_path_of E i (fst c)
     \<Longrightarrow> \<forall>c\<in>set clips'. \<exists>i. snd c = clip_path_of E i (fst c)"
proof (induction xs arbitrary: clips w)
  case Nil
  then show ?case by simp
next
  case (Cons x xs)
  obtain i d where x: "x = (i, d)" by (cases x)
  from Cons.prems(1)[unfolded x] show ?case
  proof (cases rule: extract_loop_round)
    case key_error
    then show ?thesis by simp
  next
    case (round video w2 evs clips2)
    from round(5) have "extract_loop E sel xs clips2 w2 = (Inr clips', w')" by auto
    moreover from round(6)
    have "\<forall>c\<in>set clips2. \<exists>i. snd c = clip_path_of E i (fst c)"
    proof
      assume "clips2 = clips"
      with Cons.prems(2) show ?thesis by simp
    next
      assume "clips2 = clips @ [(d, clip_path_of E i d)] \<and>
        validate_clip_result E (clip_path_of E i d) = Inr True"
      then have c2: "clips2 = clips @ [(d, clip_path_of E i d)]" by simp
      show ?thesis
      proof
        fix c assume "c \<in> set clips2"
        then have "c \<in> set clips \<or> c = (d, clip_path_of E i d)" using c2 by auto
        then show "\<exists>j. snd c = clip_path_of E j (fst c)"
        proof
          assume "c \<in> set clips"
          with Cons.prems(2) show ?thesis by blast
        next
          assume "c = (d, clip_path_of E i d)"
          then have "snd c = clip_path_of E i (fst c)" by simp
          then show ?thesis ..
        qed
      qed
    qed
    ultimately show ?thesis by (rule Cons.IH)
  qed
qed

lemma select_sort_extract_paths:
  assumes "select_sort_extract E grouped w = (Inr clips, w1)"
  shows "\<forall>c\<in>set clips. \<exists>i. snd c = clip_path_of E i (fst c)"
  using assms extract_loop_paths[of E _ _ "[]" w clips w1]
  unfolding select_sort_extract_def Let_def by simp

text \<open>
  The sample run with a validation probe that exits with a status other than 0, and the
  sample run over a directory that holds a file named for month 13: each ends with the
  exception leaving \<^verbatim>\<open>main\<close>.
\<close>

lemma main_probe_failure_escalates:
  "fst (main (sample_env\<lparr>ffprobe_streams := (\<lambda>p. Raised CalledProcessError)\<rparr>) empty_world)
     = Inl UnboundLocalError"
  by code_simp

lemma main_invalid_date_escalates:
  "fst (main (sample_env\<lparr>iterdir := Inr [''2024-01-01_a-main.mp4'', ''2024-13-01_b-main.mp4'']\<rparr>)
          empty_world) = Inl ValueError"
  by code_simp

section \<open>Properties: Concatenator\<close>

text \<open>
  Once the manifest has been written, it is gone when the function is left, on each way
  out of the \<^verbatim>\<open>try\<close>: the tool exits with 0 and \<open>True\<close> is returned, the tool
  fails and \<open>False\<close> is returned, or another exception of the invocation propagates.
\<close>

lemma manifest_deleted_after_write:
  assumes "manifest_write E (create_concat_file clip_paths) = None"
  shows "manifest_name E \<notin> files (snd (concatenate_videos E clip_paths out w))
       \<and> fst (concatenate_videos E clip_paths out w)
           = (case ffmpeg_concat E clip_paths out of
                Completed s \<Rightarrow> Inr True
              | Raised e \<Rightarrow> if e = CalledProcessError then Inr False else Inl e)"
  using assms
  by (auto simp: concatenate_videos_def Let_def os_unlink_def emit_def split: proc.splits)

text \<open>
  C7. The manifest is to be deleted on every way out of the Concatenator, exception
  propagation included. When writing the manifest raises, the exception leaves the
  function from inside the \<^verbatim>\<open>with\<close> block, before the \<^verbatim>\<open>try\<close> is entered: the
  \<^verbatim>\<open>finally\<close> clause does not run and the manifest, created with
  \<^verbatim>\<open>delete=False\<close>, stays behind, whatever the rest of the environment is.
\<close>

theorem manifest_left_when_write_fails:
  "fst (concatenate_videos (E\<lparr>manifest_write := (\<lambda>t. Some OSError)\<rparr>) clip_paths out w)
     = Inl OSError
   \<and> manifest_name E
       \<in> files (snd (concatenate_videos (E\<lparr>manifest_write := (\<lambda>t. Some OSError)\<rparr>)
                        clip_paths out w))"
  by (simp add: concatenate_videos_def Let_def)

text \<open>The sample run in which the manifest cannot be written ends with the file left.\<close>

lemma main_write_failure_leaves_manifest:
  "fst (main nowrite_env empty_world) = Inl OSError
   \<and> manifest_name nowrite_env \<in> files (snd (main nowrite_env empty_world))"
  by code_simp

section \<open>Properties: Pipeline Driver\<close>

text \<open>
  C1. In every run that produces an output, the clips handed to the Concatenator carry
  strictly increasing dates (ascending, no date twice) and each of them passed
  validation. The clips are the list the loop returns, each path being the clip path
  made for its date; \<^verbatim>\<open>main\<close> passes the paths to \<^verbatim>\<open>concatenate_videos\<close>, which
  returns \<open>True\<close>.
\<close>

theorem clips_sorted_and_valid:
  assumes "fst (main E w) = Inr (Compiled n)"
  shows "\<exists>entries grouped clips w1.
           iterdir E = Inr entries
         \<and> group_by_date (get_video_files entries) = Inr grouped
         \<and> select_sort_extract E grouped w = (Inr clips, w1)
         \<and> fst (concatenate_videos E (map snd clips) output_file w1) = Inr True
         \<and> n = length clips
         \<and> sorted_wrt (<) (map fst clips)
         \<and> (\<forall>c\<in>set clips. validate_clip_result E (snd c) = Inr True
                            \<and> (\<exists>i. snd c = clip_path_of E i (fst c)))"
proof -
  from assms main_early[of E w]
  obtain entries grouped where pre: "tools_found E" "iterdir E = Inr entries"
    "get_video_files entries \<noteq> []" "group_by_date (get_video_files entries) = Inr grouped"
    by blast
  obtain r w1 where loop: "select_sort_extract E grouped w = (r, w1)"
    by (cases "select_sort_extract E grouped w")
  note m = main_unfold[OF pre loop]
  from assms m obtain clips where r: "r = Inr clips" and ne: "clips \<noteq> []"
    by (cases r) (auto split: if_splits)
  obtain rc w2 where c: "concatenate_videos E (map snd clips) output_file w1 = (rc, w2)"
    by (cases "concatenate_videos E (map snd clips) output_file w1")
  from assms m r ne c have "rc = Inr True" "n = length clips"
    by (auto split: sum.splits bool.splits)
  moreover from loop r have l: "select_sort_extract E grouped w = (Inr clips, w1)" by simp
  moreover have "sorted_wrt (<) (map fst clips)"
    using select_sort_extract_sorted[OF l] group_by_date_distinct[OF pre(4)] by simp
  moreover have "\<forall>c\<in>set clips. validate_clip_result E (snd c) = Inr True
                            \<and> (\<exists>i. snd c = clip_path_of E i (fst c))"
    using select_sort_extract_valid[OF l] select_sort_extract_paths[OF l] by blast
  ultimately show ?thesis using pre(2,4) c by auto
qed

text \<open>The sample run compiles two clips.\<close>

theorem clips_sorted_and_valid_witness:
  "fst (main sample_env empty_world) = Inr (Compiled 2)
   \<and> (\<exists>entries grouped clips w1.
           iterdir sample_env = Inr entries
         \<and> group_by_date (get_video_files entries) = Inr grouped
         \<and> select_sort_extract sample_env grouped empty_world = (Inr clips, w1)
         \<and> fst (concatenate_videos sample_env (map snd clips) output_file w1) = Inr True
         \<and> 2 = length clips
         \<and> sorted_wrt (<) (map fst clips)
         \<and> (\<forall>c\<in>set clips. validate_clip_result sample_env (snd c) = Inr True
                            \<and> (\<exists>i. snd c = clip_path_of sample_env i (fst c))))"
proof -
  have h: "fst (main sample_env empty_world) = Inr (Compiled 2)" by code_simp
  from clips_sorted_and_valid[OF h] h show ?thesis by blast
qed

text \<open>
  C5. When the loop ends with no surviving clip, the run ends early reporting that no
  clip was extracted, the Concatenator is not invoked (the run adds no concatenation to
  the log), and the output file is not created (it exists afterwards only if it did
  before).
\<close>

theorem no_clips_no_concatenation:
  assumes "tools_found E" "iterdir E = Inr entries" "get_video_files entries \<noteq> []"
    "group_by_date (get_video_files entries) = Inr grouped"
    "fst (select_sort_extract E grouped w) = Inr []"
  shows "fst (main E w) = Inr NoClips
       \<and> (\<forall>m out. Concat m out \<in> set (log (snd (main E w))) \<longrightarrow> Concat m out \<in> set (log w))
       \<and> (output_file \<in> files (snd (main E w)) \<longrightarrow> output_file \<in> files w)"
proof -
  obtain w1 where loop: "select_sort_extract E grouped w = (Inr [], w1)"
    using assms(5) by (cases "select_sort_extract E grouped w") auto
  have m: "main E w = (Inr NoClips, cleanup E w1)"
    using main_unfold[OF assms(1-4) loop] by simp
  from select_sort_extract_log[OF loop] obtain evs where
    evs: "log w1 = log w @ evs"
      "\<forall>ev\<in>set evs. loop_event E (select_one_per_day (rnd E) grouped)
                        (enumerate 0 (sort (map fst (select_one_per_day (rnd E) grouped)))) ev"
    by blast
  have "\<forall>m out. Concat m out \<in> set (log (snd (main E w))) \<longrightarrow> Concat m out \<in> set (log w)"
    using m evs loop_event_not_concat by (auto simp: cleanup_log)
  moreover have "output_file \<in> files (snd (main E w)) \<longrightarrow> output_file \<in> files w"
  proof
    assume "output_file \<in> files (snd (main E w))"
    then have "output_file \<in> files w1" using m cleanup_files[of E w1] by auto
    then have "output_file \<in> files w \<or> output_file \<in> range (\<lambda>(i, d). clip_path_of E i d)"
      using select_sort_extract_files[OF loop] by blast
    moreover have "output_file \<notin> range (\<lambda>(i, d). clip_path_of E i d)"
    proof
      assume "output_file \<in> range (\<lambda>(i, d). clip_path_of E i d)"
      then obtain x where "output_file = (case x of (i, d) \<Rightarrow> clip_path_of E i d)" by blast
      then obtain i d where "output_file = clip_path_of E i d" by (cases x) simp
      then show False using clip_path_not_output[of E i d] by simp
    qed
    ultimately show "output_file \<in> files w" by blast
  qed
  ultimately show ?thesis using m by simp
qed

text \<open>The run in which every extraction fails.\<close>

theorem no_clips_no_concatenation_witness:
  "tools_found failing_env
   \<and> iterdir failing_env = Inr [''2024-01-03_c-main.mp4'', ''2024-01-01_a-main.mp4'',
                                ''2024-01-01_b-main.mp4'', ''notes.txt'']
   \<and> get_video_files [''2024-01-03_c-main.mp4'', ''2024-01-01_a-main.mp4'',
                       ''2024-01-01_b-main.mp4'', ''notes.txt''] \<noteq> []
   \<and> group_by_date (get_video_files [''2024-01-03_c-main.mp4'', ''2024-01-01_a-main.mp4'',
                       ''2024-01-01_b-main.mp4'', ''notes.txt'']) = Inr sample_grouped
   \<and> fst (select_sort_extract failing_env sample_grouped empty_world) = Inr []
   \<and> fst (main failing_env empty_world) = Inr NoClips
   \<and> (\<forall>m out. Concat m out \<notin> set (log (snd (main failing_env empty_world))))
   \<and> output_file \<notin> files (snd (main failing_env empty_world))"
proof -
  let ?entries = "[''2024-01-03_c-main.mp4'', ''2024-01-01_a-main.mp4'',
                   ''2024-01-01_b-main.mp4'', ''notes.txt'']"
  have h1: "tools_found failing_env" by (simp add: failing_env_def sample_env_def)
  have h2: "iterdir failing_env = Inr ?entries" by (simp add: failing_env_def sample_env_def)
  have h3: "get_video_files ?entries \<noteq> []" by code_simp
  have h4: "group_by_date (get_video_files ?entries) = Inr sample_grouped" by code_simp
  have h5: "fst (select_sort_extract failing_env sample_grouped empty_world) = Inr []"
    by code_simp
  from no_clips_no_concatenation[OF h1 h2 h3 h4 h5] h1 h2 h3 h4 h5
  show ?thesis by (simp add: empty_world_def)
qed

text \<open>
  Every extraction a run asks for is of a source for which \<^verbatim>\<open>get_video_duration\<close>
  returned some \<open>dur\<close>, and asks for the minimum of \<^verbatim>\<open>clip_duration\<close> and \<open>dur\<close>.
\<close>

lemma extract_request_of_run:
  assumes "Extract r \<in> set (log (snd (main E w)))" "Extract r \<notin> set (log w)"
  shows "\<exists>dur. get_video_duration_result E (src r) = Inr dur
              \<and> t_duration r = py_min clip_duration dur
              \<and> \<not> flt_lt clip_duration (t_duration r)
              \<and> \<not> flt_lt dur (t_duration r)"
proof -
  from main_log[of E w] obtain evs where
    evs: "log (snd (main E w)) = log w @ evs"
    and shape: "evs = [] \<or>
      (\<exists>entries grouped. iterdir E = Inr entries
         \<and> group_by_date (get_video_files entries) = Inr grouped
         \<and> (\<forall>ev\<in>set evs.
               loop_event E (select_one_per_day (rnd E) grouped)
                 (enumerate 0 (sort (map fst (select_one_per_day (rnd E) grouped)))) ev
               \<or> (\<exists>m t. ev = WriteManifest m t) \<or> (\<exists>m out. ev = Concat m out)))"
    by blast
  from assms evs have mem: "Extract r \<in> set evs" by simp
  with shape obtain sel xs where "loop_event E sel xs (Extract r)" by fastforce
  from loop_event_extract[OF this] obtain i d video dur where
    dur: "get_video_duration_result E (path_str video) = Inr dur"
    and r: "r = extract_cmd (path_str video) (clip_path_of E i d)
                  (Some (py_min clip_duration dur)) (Some 0)"
    by blast
  from r have "src r = path_str video" "t_duration r = py_min clip_duration dur"
    by (simp_all add: extract_cmd_def)
  with dur show ?thesis
    using py_min_le_left[of clip_duration dur] py_min_le_right[of dur clip_duration] by auto
qed

text \<open>
  What \<^verbatim>\<open>get_video_duration\<close> returns is the duration the probe obtained, or 10.0
  when it obtained none.
\<close>

lemma get_video_duration_probed:
  assumes "get_video_duration_result E p = Inr dur"
  shows "(case probed_duration E p of Some d \<Rightarrow> dur = d | None \<Rightarrow> dur = Fin 10)"
proof (cases "ffprobe_format E p")
  case (Raised e)
  with assms show ?thesis
    by (auto simp: get_video_duration_result_def probed_duration_def split: if_splits)
next
  case (Completed out)
  show ?thesis
  proof (cases "json_loads E out")
    case None
    with Completed assms show ?thesis
      by (auto simp: get_video_duration_result_def probed_duration_def duration_caught_def
               split: if_splits)
  next
    case (Some data)
    with Completed assms show ?thesis
      by (auto simp: get_video_duration_result_def probed_duration_def duration_caught_def
                     duration_body_def py_getitem_def py_float_def number_shown_def
               split: if_splits json.splits option.splits sum.splits)
  qed
qed

lemma py_min_fallback: "py_min clip_duration (Fin 10) = clip_duration"
  by (simp add: py_min_def clip_duration_def)

text \<open>
  C6, as stated: the duration asked for is the minimum of the target and the duration
  obtained from the duration probe. In the run whose duration probe exits with a status
  other than 0, an extraction of 1.4 seconds is asked for although the probe obtained no
  duration of the source.
\<close>

theorem fallback_request_counterexample:
  "Extract \<lparr>src = ''videos/2024-01-01_a-main.mp4'',
             dst = ''/tmp/tmpk3v9/clip_0000_20240101.mp4'',
             t_duration = Fin (14 / 10), ss_start = 0\<rparr>
     \<in> set (log (snd (main noprobe_env empty_world)))
   \<and> probed_duration noprobe_env ''videos/2024-01-01_a-main.mp4'' = None"
  by code_simp

text \<open>
  C6, amended: for every extraction a run asks for, when the duration probe obtained a
  duration of the source, the duration asked for is the minimum of the target and that
  duration, and exceeds neither; when the probe obtained none, the duration asked for
  is the target.
\<close>

theorem requested_duration_follows_probe:
  assumes "Extract r \<in> set (log (snd (main E w)))" "Extract r \<notin> set (log w)"
  shows "(case probed_duration E (src r) of
            Some d \<Rightarrow> t_duration r = py_min clip_duration d
                      \<and> \<not> flt_lt clip_duration (t_duration r)
                      \<and> \<not> flt_lt d (t_duration r)
          | None \<Rightarrow> t_duration r = clip_duration)"
proof -
  from extract_request_of_run[OF assms] obtain dur where
    dur: "get_video_duration_result E (src r) = Inr dur"
    and t: "t_duration r = py_min clip_duration dur"
    and le: "\<not> flt_lt clip_duration (t_duration r)" "\<not> flt_lt dur (t_duration r)"
    by blast
  show ?thesis
  proof (cases "probed_duration E (src r)")
    case None
    with get_video_duration_probed[OF dur] have "dur = Fin 10" by simp
    with t None show ?thesis by (simp add: py_min_fallback)
  next
    case (Some d)
    with get_video_duration_probed[OF dur] have "dur = d" by simp
    with t le Some show ?thesis by simp
  qed
qed

text \<open>The first extraction of the run over sources one second long.\<close>

theorem requested_duration_follows_probe_witness:
  "Extract \<lparr>src = ''videos/2024-01-01_a-main.mp4'',
             dst = ''/tmp/tmpk3v9/clip_0000_20240101.mp4'',
             t_duration = Fin 1, ss_start = 0\<rparr>
     \<in> set (log (snd (main short_env empty_world)))
   \<and> Extract \<lparr>src = ''videos/2024-01-01_a-main.mp4'',
             dst = ''/tmp/tmpk3v9/clip_0000_20240101.mp4'',
             t_duration = Fin 1, ss_start = 0\<rparr> \<notin> set (log empty_world)
   \<and> probed_duration short_env ''videos/2024-01-01_a-main.mp4'' = Some (Fin 1)
   \<and> Fin 1 = py_min clip_duration (Fin 1)
   \<and> \<not> flt_lt clip_duration (Fin 1)
   \<and> \<not> flt_lt (Fin 1) (Fin 1)"
proof -
  let ?r = "\<lparr>src = ''videos/2024-01-01_a-main.mp4'',
             dst = ''/tmp/tmpk3v9/clip_0000_20240101.mp4'',
             t_duration = Fin 1, ss_start = 0\<rparr>"
  have h1: "Extract ?r \<in> set (log (snd (main short_env empty_world)))" by code_simp
  have h2: "Extract ?r \<notin> set (log empty_world)" by (simp add: empty_world_def)
  have h3: "probed_duration short_env ''videos/2024-01-01_a-main.mp4'' = Some (Fin 1)"
    by code_simp
  from requested_duration_follows_probe[OF h1 h2] h1 h2 h3 show ?thesis by simp
qed

section \<open>Properties: Clip Validator on a probe that ran\<close>

text \<open>
  C3. For a clip whose probe ran and printed a document, the validator returns
  "invalid" exactly when the probe shows no video stream, or no audio stream, or its
  duration is absent or below 0.5 seconds; and a clip that is invalid in this sense is
  in no clip list the loop of the Pipeline Driver returns, which is the list handed to
  the Concatenator.
\<close>

theorem validator_classifies_by_probe:
  assumes "ffprobe_streams E p = Completed out" "json_loads E out = Some data"
    "well_formed_probe data"
  shows "validate_clip_result E p = Inr (\<not> invalid_by_probe (str_to_float E) data)
       \<and> (invalid_by_probe (str_to_float E) data \<longrightarrow>
            (\<forall>grouped w clips. fst (select_sort_extract E grouped w) = Inr clips
                 \<longrightarrow> p \<notin> snd ` set clips))"
proof -
  have v: "validate_clip_result E p = Inr (\<not> invalid_by_probe (str_to_float E) data)"
    using assms by (rule validate_clip_well_formed)
  have "\<forall>grouped w clips. fst (select_sort_extract E grouped w) = Inr clips
                 \<longrightarrow> p \<notin> snd ` set clips"
    if inv: "invalid_by_probe (str_to_float E) data"
  proof (intro allI impI)
    fix grouped w clips
    assume "fst (select_sort_extract E grouped w) = Inr clips"
    then obtain w1 where "select_sort_extract E grouped w = (Inr clips, w1)"
      by (cases "select_sort_extract E grouped w") auto
    from select_sort_extract_valid[OF this]
    have "\<forall>c\<in>set clips. validate_clip_result E (snd c) = Inr True" .
    moreover have "validate_clip_result E p \<noteq> Inr True" using v inv by simp
    ultimately show "p \<notin> snd ` set clips" by auto
  qed
  with v show ?thesis by blast
qed

text \<open>The run in which the clip of 1 January has no audio stream.\<close>

theorem validator_classifies_by_probe_witness:
  "ffprobe_streams silent_env ''/tmp/tmpk3v9/clip_0000_20240101.mp4'' = Completed ''silent''
   \<and> json_loads silent_env ''silent'' = Some silent_probe
   \<and> well_formed_probe silent_probe
   \<and> invalid_by_probe (str_to_float silent_env) silent_probe
   \<and> validate_clip_result silent_env ''/tmp/tmpk3v9/clip_0000_20240101.mp4'' = Inr False
   \<and> fst (select_sort_extract silent_env sample_grouped empty_world)
        = Inr [((2024, 1, 3), ''/tmp/tmpk3v9/clip_0001_20240103.mp4'')]
   \<and> ''/tmp/tmpk3v9/clip_0000_20240101.mp4''
        \<notin> snd ` set [((2024, 1, 3) :: date, ''/tmp/tmpk3v9/clip_0001_20240103.mp4'')]"
proof -
  let ?p = "''/tmp/tmpk3v9/clip_0000_20240101.mp4''"
  have h1: "ffprobe_streams silent_env ?p = Completed ''silent''"
    by (simp add: silent_env_def sample_env_def)
  have h2: "json_loads silent_env ''silent'' = Some silent_probe"
    by (simp add: silent_env_def sample_env_def)
  have h3: "well_formed_probe silent_probe" by code_simp
  have h4: "invalid_by_probe (str_to_float silent_env) silent_probe" by code_simp
  have h5: "fst (select_sort_extract silent_env sample_grouped empty_world)
        = Inr [((2024, 1, 3), ''/tmp/tmpk3v9/clip_0001_20240103.mp4'')]" by code_simp
  from validator_classifies_by_probe[OF h1 h2 h3] h1 h2 h3 h4 h5 show ?thesis by simp
qed

section \<open>Lemmas: paths and matched names\<close>

lemma path_str_inj: "path_str a = path_str b \<Longrightarrow> a = b"
  by (simp add: path_str_def)

lemma re_match_length: "re_match s = Some g \<Longrightarrow> 11 \<le> length s"
  by (simp add: re_match_def split: if_splits)

section \<open>Properties: extensions in another letter case\<close>

text \<open>
  C10. Take a name with a valid date prefix (with the extension \<^verbatim>\<open>.mp4\<close> the parser
  returns its date) and an extension that differs from \<^verbatim>\<open>.mp4\<close> in letter case only.
  The Corpus Scanner keeps the file, the parser returns "no date" for it, no bucket of
  the Day Grouper holds it, and no run extracts a clip from it.
\<close>

theorem other_case_extension_never_bucketed:
  assumes "parse_date_from_filename (stem @ ''.mp4'') = Inr (Some d)"
    and "py_lower ext = ''.mp4''" and "ext \<noteq> ''.mp4''"
  shows "(stem @ ext \<in> set entries \<longrightarrow> stem @ ext \<in> set (get_video_files entries))
       \<and> parse_date_from_filename (stem @ ext) = Inr None
       \<and> (\<forall>fs g. group_by_date fs = Inr g \<longrightarrow> (\<forall>b\<in>set g. stem @ ext \<notin> set (snd b)))
       \<and> (\<forall>E w r. Extract r \<in> set (log (snd (main E w))) \<and> Extract r \<notin> set (log w)
                    \<longrightarrow> src r \<noteq> path_str (stem @ ext))"
proof -
  let ?name = "stem @ ext"
  from assms(1) obtain g where "re_match (stem @ ''.mp4'') = Some g"
    by (auto simp: parse_date_from_filename_def split: option.splits)
  then have "11 \<le> length (stem @ ''.mp4'')" by (rule re_match_length)
  then have stem: "stem \<noteq> []" by auto
  from assms(2) obtain a b where ext: "ext = [CHR ''.'', a, b, CHR ''4'']"
    and ab: "a = CHR ''m'' \<or> a = CHR ''M''" "b = CHR ''p'' \<or> b = CHR ''P''"
    using py_lower_mp4 by blast
  have "CHR ''.'' \<notin> set [a, b, CHR ''4'']" using ab by auto
  then have "suffix_of (stem @ CHR ''.'' # [a, b, CHR ''4'']) = CHR ''.'' # [a, b, CHR ''4'']"
    using stem by (intro suffix_of_ext) simp_all
  then have suf: "suffix_of ?name = ext" by (simp add: ext)
  have scan: "?name \<in> set entries \<longrightarrow> ?name \<in> set (get_video_files entries)"
    by (simp add: get_video_files_def suf assms(2))
  have parse: "parse_date_from_filename ?name = Inr None"
    using re_match_other_case[OF assms(2,3), of stem] by (simp add: parse_date_from_filename_def)
  have bucket: "\<forall>fs g. group_by_date fs = Inr g \<longrightarrow> (\<forall>b\<in>set g. ?name \<notin> set (snd b))"
  proof (intro allI impI ballI notI)
    fix fs g b
    assume g: "group_by_date fs = Inr g" and b: "b \<in> set g" and m: "?name \<in> set (snd b)"
    from b have "(fst b, snd b) \<in> set g" by simp
    from group_by_date_mem[OF g this m] parse show False by simp
  qed
  have run: "\<forall>E w r. Extract r \<in> set (log (snd (main E w))) \<and> Extract r \<notin> set (log w)
                    \<longrightarrow> src r \<noteq> path_str ?name"
  proof (intro allI impI notI)
    fix E w r
    assume h: "Extract r \<in> set (log (snd (main E w))) \<and> Extract r \<notin> set (log w)"
      and same: "src r = path_str ?name"
    from main_log[of E w] obtain evs where
      evs: "log (snd (main E w)) = log w @ evs"
      and shape: "evs = [] \<or>
        (\<exists>entries grouped. iterdir E = Inr entries
           \<and> group_by_date (get_video_files entries) = Inr grouped
           \<and> (\<forall>ev\<in>set evs.
                 loop_event E (select_one_per_day (rnd E) grouped)
                   (enumerate 0 (sort (map fst (select_one_per_day (rnd E) grouped)))) ev
                 \<or> (\<exists>m t. ev = WriteManifest m t) \<or> (\<exists>m out. ev = Concat m out)))"
      by blast
    from h evs have mem: "Extract r \<in> set evs" by auto
    with shape obtain fs grouped where
      g: "group_by_date fs = Inr grouped"
      and le: "loop_event E (select_one_per_day (rnd E) grouped)
                 (enumerate 0 (sort (map fst (select_one_per_day (rnd E) grouped)))) (Extract r)"
      by fastforce
    from loop_event_extract[OF le] obtain i dd video dur where
      sel: "map_of (select_one_per_day (rnd E) grouped) dd = Some video"
      and r: "r = extract_cmd (path_str video) (clip_path_of E i dd)
                    (Some (py_min clip_duration dur)) (Some 0)"
      by blast
    from r same have "video = ?name" by (simp add: extract_cmd_def path_str_inj)
    moreover from sel have "(dd, video) \<in> set (select_one_per_day (rnd E) grouped)"
      by (rule map_of_SomeD)
    then obtain vs where "(dd, vs) \<in> set grouped" "video \<in> set vs"
      using select_mem by blast
    ultimately show False using bucket g by fastforce
  qed
  from scan parse bucket run show ?thesis by blast
qed

text \<open>The file \<^verbatim>\<open>2024-01-01_a-main.MP4\<close>.\<close>

theorem other_case_extension_never_bucketed_witness:
  "parse_date_from_filename (''2024-01-01_a-main'' @ ''.mp4'') = Inr (Some (2024, 1, 1))
   \<and> py_lower ''.MP4'' = ''.mp4'' \<and> ''.MP4'' \<noteq> ''.mp4''
   \<and> ''2024-01-01_a-main.MP4'' \<in> set (get_video_files [''2024-01-01_a-main.MP4''])
   \<and> parse_date_from_filename ''2024-01-01_a-main.MP4'' = Inr None
   \<and> group_by_date [''2024-01-01_a-main.MP4''] = Inr []"
proof -
  have h1: "parse_date_from_filename (''2024-01-01_a-main'' @ ''.mp4'') = Inr (Some (2024, 1, 1))"
    by code_simp
  have h2: "py_lower ''.MP4'' = ''.mp4''" by code_simp
  have h3: "''.MP4'' \<noteq> ''.mp4''" by simp
  have h4: "group_by_date [''2024-01-01_a-main.MP4''] = Inr []" by code_simp
  from other_case_extension_never_bucketed[OF h1 h2 h3, of "[''2024-01-01_a-main.MP4'']"]
    h1 h2 h3 h4
  show ?thesis by simp
qed

end
